(* ===== verification/Auth_Prelude.thy ===== *)
theory Auth_Prelude
  imports Main
begin

text \<open>
  Shared vocabulary of the development: the JavaScript values the client handles
  (JSON payloads returned by axios and the \<open>undefined\<close> produced by optional chaining),
  JavaScript truthiness and the \<open>||\<close> operator, and the named theorem collections the
  component theories feed. The client code reads backend payloads only through these
  operations (\<open>response.data === true\<close>, \<open>error.response?.data?.message || ...\<close>).
\<close>

named_theorems effect_simps
  "equations that evaluate the effect interpreter on the code fragments"
named_theorems inv_simps
  "equations that unfold the world invariant into its conjuncts"

section \<open>JavaScript values\<close>

text \<open>
  A JSON value as axios delivers it in \<open>response.data\<close>. Numbers are kept as integers:
  the code only ever tests payloads for truthiness and strict equality with \<open>true\<close>.
  Objects keep their key/value pairs in source order, duplicates included: as
  \<open>JSON.parse\<close> does, the last occurrence of a key wins.
\<close>

datatype json =
    JNull
  | JBool bool
  | JNum int
  | JStr string
  | JArr "json list"
  | JObj "(string \<times> json) list"

text \<open>\<open>undefined\<close> is \<open>None\<close>; any defined value is \<open>Some v\<close>.\<close>

type_synonym js_value = "json option"

fun js_truthy :: "json \<Rightarrow> bool" where
  "js_truthy JNull = False"
| "js_truthy (JBool b) = b"
| "js_truthy (JNum n) = (n \<noteq> 0)"
| "js_truthy (JStr s) = (s \<noteq> [])"
| "js_truthy (JArr _) = True"
| "js_truthy (JObj _) = True"

text \<open>Optional member access \<open>x?.k\<close>: \<open>undefined\<close> on \<open>null\<close>/\<open>undefined\<close>, the last
  binding of \<open>k\<close> on an object, and \<open>undefined\<close> on any other value (no JSON primitive
  has an own property of the names the client reads).\<close>

fun js_opt_member :: "js_value \<Rightarrow> string \<Rightarrow> js_value" where
  "js_opt_member None k = None"
| "js_opt_member (Some (JObj kvs)) k = map_of (rev kvs) k"
| "js_opt_member (Some _) k = None"

text \<open>\<open>a || b\<close> for a right operand that is a (truthy) literal.\<close>

definition js_or :: "js_value \<Rightarrow> json \<Rightarrow> json" where
  "js_or a b = (case a of Some v \<Rightarrow> if js_truthy v then v else b | None \<Rightarrow> b)"

section \<open>Generic lemmas\<close>

lemma js_or_truthy [simp]: "js_truthy v \<Longrightarrow> js_or (Some v) b = v"
  by (simp add: js_or_def)

lemma js_or_falsy [simp]: "\<not> js_truthy v \<Longrightarrow> js_or (Some v) b = b"
  by (simp add: js_or_def)

lemma js_or_undefined [simp]: "js_or None b = b"
  by (simp add: js_or_def)

end
