(* ===== verification/Http_Gateway.thy ===== *)
theory Http_Gateway
  imports Auth_Prelude
begin

text \<open>
  The backend gateway as the client uses it: every request is an \<open>axios.get\<close> or
  \<open>axios.post\<close> on \<open>backendURL\<close> followed by an endpoint, sent with
  \<open>withCredentials: true\<close> so that the session cookie travels with it. axios settles the
  returned promise by its default \<open>validateStatus\<close>: a status in [200, 300) resolves
  with the response, any other status rejects with an error that carries the response,
  and a transport failure rejects with an error that has no response. The base URL
  comes from \<open>util/constants\<close>, which is not part of the sources; a request therefore
  records only its endpoint.
\<close>

datatype http_method = GET | POST

record request =
  req_method :: http_method
  endpoint :: string
  req_body :: "json option"
  with_credentials :: bool

text \<open>What the network hands back for one request: a response or a transport failure.\<close>

datatype reply = Response nat json | NetworkFailure

record response =
  status :: nat
  data :: json

datatype axios_error = HttpError response | NetworkError

definition validate_status :: "nat \<Rightarrow> bool" where
  "validate_status s \<longleftrightarrow> 200 \<le> s \<and> s < 300"

text \<open>The settled promise: \<open>Inr\<close> the resolved response, \<open>Inl\<close> the rejection.\<close>

fun axios_settle :: "reply \<Rightarrow> axios_error + response" where
  "axios_settle (Response s d) =
     (if validate_status s then Inr \<lparr>status = s, data = d\<rparr>
      else Inl (HttpError \<lparr>status = s, data = d\<rparr>))"
| "axios_settle NetworkFailure = Inl NetworkError"

text \<open>\<open>error.response?.data\<close>.\<close>

fun error_response_data :: "axios_error \<Rightarrow> js_value" where
  "error_response_data (HttpError r) = Some (data r)"
| "error_response_data NetworkError = None"

section \<open>Settling\<close>

declare validate_status_def [effect_simps]

lemma axios_settle_Inr:
  "axios_settle r = Inr resp \<longleftrightarrow>
     validate_status (status resp) \<and> r = Response (status resp) (data resp)"
  by (cases r) (auto split: if_splits)

lemma axios_settle_status_200 [simp]:
  "axios_settle (Response 200 d) = Inr \<lparr>status = 200, data = d\<rparr>"
  by (simp add: validate_status_def)

lemma axios_settle_status_201 [simp]:
  "axios_settle (Response 201 d) = Inr \<lparr>status = 201, data = d\<rparr>"
  by (simp add: validate_status_def)

end
