(* ===== verification/Async_Effects.thy ===== *)
theory Async_Effects
  imports Http_Gateway
begin

text \<open>
  The interface through which the components act on the running application. The
  client's handlers are \<open>async\<close> functions: each runs without interruption up to its next
  \<open>await\<close> on an axios promise, and resumes when the network answers. A code fragment
  between two \<open>await\<close>s is modelled as the list of calls it makes, in source order:
  React state setters of the context (\<open>setIsLoggedIn\<close>, \<open>setUserData\<close>) and of the
  Login page (\<open>setLoading\<close>), \<open>toast\<close> notifications, \<open>navigate\<close>, and the sending of
  a request together with the \<open>await\<close> point that will receive its answer. The event
  loop (theory \<open>Event_Loop\<close>) interprets these lists; the components only produce them.

  An \<open>await\<close> point names the suspended function and, for the Login page, the mounted
  instance whose handler is suspended (a number the event loop hands out at mount).
  \<open>getUserData\<close> is awaited by three callers, and the caller's own continuation runs
  right after it, so its \<open>await\<close> point records the caller.
\<close>

datatype caller = FromAuthState | FromRegister nat | FromLogin nat

datatype await_point =
    AwaitAuthCheck
  | AwaitProfile caller
  | AwaitRegister nat
  | AwaitLogin nat

datatype toast_kind = ToastSuccess | ToastError

datatype effect =
    SetIsLoggedIn bool
  | SetUserData json
  | ShowToast toast_kind json
  | Navigate string
  | SetLoading nat bool
  | Send request await_point

text \<open>The Login page instance whose submit handler is suspended at an \<open>await\<close> point;
  \<open>None\<close> for the context's own bootstrap chain.\<close>

fun await_owner :: "await_point \<Rightarrow> nat option" where
  "await_owner AwaitAuthCheck = None"
| "await_owner (AwaitProfile FromAuthState) = None"
| "await_owner (AwaitProfile (FromRegister i)) = Some i"
| "await_owner (AwaitProfile (FromLogin i)) = Some i"
| "await_owner (AwaitRegister i) = Some i"
| "await_owner (AwaitLogin i) = Some i"

text \<open>The requests a fragment sends, in order.\<close>

fun sends :: "effect list \<Rightarrow> (request \<times> await_point) list" where
  "sends [] = []"
| "sends (Send r k # es) = (r, k) # sends es"
| "sends (_ # es) = sends es"

section \<open>Fragment shapes\<close>

text \<open>A inert effect touches neither the in-flight requests nor a \<open>loading\<close> flag.\<close>

fun inert :: "effect \<Rightarrow> bool" where
  "inert (SetIsLoggedIn _) = True"
| "inert (SetUserData _) = True"
| "inert (ShowToast _ _) = True"
| "inert (Navigate _) = True"
| "inert (SetLoading _ _) = False"
| "inert (Send _ _) = False"

text \<open>
  The contract every resumed fragment meets. When the answer for an \<open>await\<close> point
  owned by \<open>own\<close> arrives, the owner has nothing in flight; the fragment that runs then
  either awaits again (it ends with one credentialed request owned by \<open>own\<close>), or, for a
  Login instance \<open>i\<close>, ends by clearing \<open>loading\<close> of \<open>i\<close> (the \<open>finally\<close> block),
  or, for the context's bootstrap chain, just ends; before that last call it makes only
  inert calls. The list is read from its end.
\<close>

fun closes_gap_rev :: "nat option \<Rightarrow> effect list \<Rightarrow> bool" where
  "closes_gap_rev own (Send q k # ps) \<longleftrightarrow>
     list_all inert ps \<and> await_owner k = own \<and> with_credentials q"
| "closes_gap_rev own (SetLoading i b # ps) \<longleftrightarrow> \<not> b \<and> own = Some i \<and> list_all inert ps"
| "closes_gap_rev own ps \<longleftrightarrow> own = None \<and> list_all inert ps"

definition closes_gap :: "nat option \<Rightarrow> effect list \<Rightarrow> bool" where
  "closes_gap own es \<longleftrightarrow> closes_gap_rev own (rev es)"

section \<open>Lemmas\<close>

lemma sends_append [simp]: "sends (xs @ ys) = sends xs @ sends ys"
  by (induction xs rule: sends.induct) auto

lemma closes_gap_inert:
  "list_all inert ps \<Longrightarrow> closes_gap None ps"
proof -
  assume "list_all inert ps"
  then show ?thesis
  proof (cases "rev ps")
    case Nil
    then show ?thesis by (simp add: closes_gap_def)
  next
    case (Cons e es)
    with \<open>list_all inert ps\<close> have "inert e" "list_all inert es"
      by (metis list.pred_inject(2) list_all_rev)+
    with Cons show ?thesis by (cases e) (simp_all add: closes_gap_def)
  qed
qed

lemma closes_gap_cases:
  assumes "closes_gap own es"
  obtains (awaits) ps q k where "es = ps @ [Send q k]" "list_all inert ps"
      "await_owner k = own" "with_credentials q"
    | (cleared) ps i where "es = ps @ [SetLoading i False]" "list_all inert ps" "own = Some i"
    | (ended) "own = None" "list_all inert es"
proof (cases "rev es")
  case Nil
  with assms show ?thesis by (intro ended) (simp_all add: closes_gap_def)
next
  case (Cons e ps)
  then have es: "es = rev ps @ [e]" by (metis rev_rev_ident rev.simps(2))
  show ?thesis
  proof (cases e)
    case (Send q k)
    with assms Cons es show ?thesis by (intro awaits) (auto simp: closes_gap_def)
  next
    case (SetLoading i b)
    with assms Cons es show ?thesis by (intro cleared) (auto simp: closes_gap_def)
  qed (use assms Cons es in \<open>auto intro: ended simp: closes_gap_def\<close>)
qed

end
