(* ===== verification/App_Context.thy ===== *)
theory App_Context
  imports Async_Effects
begin

text \<open>
  The session store and bootstrap sequence of \<open>src/client/src/context/AppContext.jsx\<close>.
  \<open>AppContextProvider\<close> keeps two pieces of React state, \<open>isLoggedIn\<close> and
  \<open>userData\<close> (record \<open>app_ctx\<close>), and exposes their setters and \<open>getUserData\<close> to
  the pages. Its \<open>useEffect\<close> runs \<open>getAuthState\<close> once at mount: it asks
  \<open>/is-authenticated\<close> and, on a \<open>200\<close> answer whose payload is exactly \<open>true\<close>,
  sets \<open>isLoggedIn\<close> and awaits \<open>getUserData\<close>, which asks \<open>/profile\<close> and stores the
  payload of a \<open>200\<close> answer. Both async functions are split at their \<open>await\<close>: the
  part that sends the request and the part that runs on the answer. There is no
  \<open>initialized\<close> flag in the code.
\<close>

record app_ctx =
  isLoggedIn :: bool
  userData :: json

definition ctx_init :: app_ctx where
  "ctx_init = \<lparr>isLoggedIn = False, userData = JNull\<rparr>"

text \<open>The setters of the two \<open>useState\<close> hooks; other effects leave the store alone.\<close>

fun ctx_effect :: "effect \<Rightarrow> app_ctx \<Rightarrow> app_ctx" where
  "ctx_effect (SetIsLoggedIn b) c = c\<lparr>isLoggedIn := b\<rparr>"
| "ctx_effect (SetUserData d) c = c\<lparr>userData := d\<rparr>"
| "ctx_effect (ShowToast _ _) c = c"
| "ctx_effect (Navigate _) c = c"
| "ctx_effect (SetLoading _ _) c = c"
| "ctx_effect (Send _ _) c = c"

section \<open>getUserData\<close>

definition profile_request :: request where
  "profile_request =
     \<lparr>req_method = GET, endpoint = ''/profile'', req_body = None, with_credentials = True\<rparr>"

text \<open>Up to the \<open>await\<close>: the GET on \<open>/profile\<close>, resumed in the caller \<open>c\<close>.\<close>

definition getUserData_call :: "caller \<Rightarrow> effect list" where
  "getUserData_call c = [Send profile_request (AwaitProfile c)]"

text \<open>After the \<open>await\<close>: a resolved answer with status 200 replaces \<open>userData\<close>
  wholesale, a resolved answer with another 2xx status does nothing, and a rejection is
  caught and reported by a toast. The function never rethrows.\<close>

definition getUserData_resume :: "reply \<Rightarrow> effect list" where
  "getUserData_resume r =
     (case axios_settle r of
        Inr resp \<Rightarrow> if status resp = 200 then [SetUserData (data resp)] else []
      | Inl _ \<Rightarrow> [ShowToast ToastError (JStr ''Unable to retrieve profile'')])"

section \<open>getAuthState and the mount effect\<close>

definition is_authenticated_request :: request where
  "is_authenticated_request =
     \<lparr>req_method = GET, endpoint = ''/is-authenticated'', req_body = None,
      with_credentials = True\<rparr>"

definition getAuthState_start :: "effect list" where
  "getAuthState_start = [Send is_authenticated_request AwaitAuthCheck]"

definition getAuthState_resume :: "reply \<Rightarrow> effect list" where
  "getAuthState_resume r =
     (case axios_settle r of
        Inr resp \<Rightarrow>
          if status resp = 200 \<and> data resp = JBool True
          then SetIsLoggedIn True # getUserData_call FromAuthState
          else [SetIsLoggedIn False]
      | Inl _ \<Rightarrow> [SetIsLoggedIn False])"

section \<open>Store lemmas\<close>

lemmas app_context_defs [effect_simps] =
  getUserData_call_def getUserData_resume_def getAuthState_start_def getAuthState_resume_def

section \<open>The fragments meet the resumption contract\<close>

lemma getUserData_resume_inert: "list_all inert (getUserData_resume r)"
  by (simp add: getUserData_resume_def split: sum.split)

lemma getUserData_resume_closes: "closes_gap None (getUserData_resume r)"
  by (rule closes_gap_inert [OF getUserData_resume_inert])

lemma getAuthState_resume_closes: "closes_gap None (getAuthState_resume r)"
  by (simp add: getAuthState_resume_def getUserData_call_def profile_request_def
      closes_gap_def split: sum.split)

end
