(* ===== verification/Login_Page.thy ===== *)
theory Login_Page
  imports App_Context
begin

text \<open>
  The dual-mode login/registration screen of \<open>src/client/src/pages/Login.jsx\<close>.
  Its React state is the record \<open>login_state\<close>. Edits of the inputs and the
  "Sign Up"/"Login" switch are pure updates of it. The form's submit handler
  \<open>onSubmitHandler\<close> is split at its \<open>await\<close>s: \<open>onSubmit_start\<close> sets \<open>loading\<close> and
  posts to \<open>/register\<close> or \<open>/login\<close>; \<open>register_resume\<close>/\<open>login_resume\<close> run on the
  answer (the \<open>catch\<close> and \<open>finally\<close> blocks included); \<open>register_after_profile\<close> and
  \<open>login_after_profile\<close> run after the awaited \<open>getUserData\<close>. A submit reaches the
  handler only when the browser lets it through: the button is \<open>disabled\<close> while
  \<open>loading\<close>, and the inputs carry \<open>required\<close> and \<open>type="email"\<close> constraints
  (\<open>form_valid\<close>, with the HTML standard's valid-e-mail-address grammar). The page's
  two \<open>Link\<close>s are \<open>login_links\<close>.
\<close>

record login_state =
  isCreateAccount :: bool
  name :: string
  email :: string
  password :: string
  loading :: bool

definition login_init :: login_state where
  "login_init =
     \<lparr>isCreateAccount = False, name = [], email = [], password = [], loading = False\<rparr>"

section \<open>Inputs and the mode switch\<close>

datatype field = FName | FEmail | FPassword

text \<open>\<open>onChange\<close> of the three inputs. The name input is rendered in registration
  mode only, so it can be edited only there; the browser reports the input's value.\<close>

definition input_enabled :: "field \<Rightarrow> login_state \<Rightarrow> bool" where
  "input_enabled f st \<longleftrightarrow> f \<noteq> FName \<or> isCreateAccount st"

fun set_field :: "field \<Rightarrow> string \<Rightarrow> login_state \<Rightarrow> login_state" where
  "set_field FName v st = st\<lparr>name := v\<rparr>"
| "set_field FEmail v st = st\<lparr>email := v\<rparr>"
| "set_field FPassword v st = st\<lparr>password := v\<rparr>"

text \<open>The switch below the form: in registration mode the rendered span sets
  \<open>isCreateAccount\<close> to false, otherwise the rendered span sets it to true.\<close>

definition switch_mode :: "login_state \<Rightarrow> login_state" where
  "switch_mode st =
     (if isCreateAccount st then st\<lparr>isCreateAccount := False\<rparr>
      else st\<lparr>isCreateAccount := True\<rparr>)"

text \<open>The page's two \<open>Link\<close>s: the logo to \<open>/\<close> (lines 72--78) and "Forgot
  password?" to \<open>/reset-password\<close> (lines 125--129). A click navigates client-side.\<close>

definition logo_link :: string where
  "logo_link = ''/''"

definition forgot_password_link :: string where
  "forgot_password_link = ''/reset-password''"

definition login_links :: "string list" where
  "login_links = [logo_link, forgot_password_link]"

section \<open>Browser constraint validation\<close>

definition is_ascii_alnum :: "char \<Rightarrow> bool" where
  "is_ascii_alnum c \<longleftrightarrow>
     (let n = (of_char c :: nat)
      in (48 \<le> n \<and> n \<le> 57) \<or> (65 \<le> n \<and> n \<le> 90) \<or> (97 \<le> n \<and> n \<le> 122))"

text \<open>Characters of the local part: letters, digits and
  \<open>.!#$%&'*+/=?^_`{|}~-\<close>, written by their codes.\<close>

definition email_local_char :: "char \<Rightarrow> bool" where
  "email_local_char c \<longleftrightarrow>
     is_ascii_alnum c \<or>
     (of_char c :: nat) \<in> {33, 35, 36, 37, 38, 39, 42, 43, 45, 46, 47, 61, 63, 94, 95, 96,
                           123, 124, 125, 126}"

text \<open>A domain label: 1 to 63 letters, digits or hyphens, starting and ending with a
  letter or digit.\<close>

definition email_label_ok :: "string \<Rightarrow> bool" where
  "email_label_ok l \<longleftrightarrow>
     l \<noteq> [] \<and> length l \<le> 63 \<and> list_all (\<lambda>c. is_ascii_alnum c \<or> c = CHR ''-'') l \<and>
     is_ascii_alnum (hd l) \<and> is_ascii_alnum (last l)"

fun split_on :: "char \<Rightarrow> string \<Rightarrow> string list" where
  "split_on d [] = [[]]"
| "split_on d (c # cs) =
     (if c = d then [] # split_on d cs
      else (case split_on d cs of w # ws \<Rightarrow> (c # w) # ws | [] \<Rightarrow> [[c]]))"

definition valid_email :: "string \<Rightarrow> bool" where
  "valid_email s \<longleftrightarrow>
     (let l = takeWhile (\<lambda>c. c \<noteq> CHR ''@'') s;
          r = dropWhile (\<lambda>c. c \<noteq> CHR ''@'') s
      in l \<noteq> [] \<and> list_all email_local_char l \<and>
         (case r of [] \<Rightarrow> False
          | _ # domain \<Rightarrow> list_all email_label_ok (split_on (CHR ''.'') domain)))"

text \<open>\<open>required\<close> on every rendered input (an empty value fails it) and
  \<open>type="email"\<close> on the e-mail input.\<close>

definition form_valid :: "login_state \<Rightarrow> bool" where
  "form_valid st \<longleftrightarrow>
     (\<not> isCreateAccount st \<or> name st \<noteq> []) \<and>
     email st \<noteq> [] \<and> valid_email (email st) \<and> password st \<noteq> []"

text \<open>A submit (button click or Enter) reaches \<open>onSubmitHandler\<close> only when the
  submit button is enabled and the form passes validation.\<close>

definition submit_enabled :: "login_state \<Rightarrow> bool" where
  "submit_enabled st \<longleftrightarrow> \<not> loading st \<and> form_valid st"

section \<open>onSubmitHandler\<close>

definition register_request :: "string \<Rightarrow> string \<Rightarrow> string \<Rightarrow> request" where
  "register_request n e p =
     \<lparr>req_method = POST, endpoint = ''/register'',
      req_body = Some (JObj [(''name'', JStr n), (''email'', JStr e), (''password'', JStr p)]),
      with_credentials = True\<rparr>"

definition login_request :: "string \<Rightarrow> string \<Rightarrow> request" where
  "login_request e p =
     \<lparr>req_method = POST, endpoint = ''/login'',
      req_body = Some (JObj [(''email'', JStr e), (''password'', JStr p)]),
      with_credentials = True\<rparr>"

text \<open>Up to the first \<open>await\<close>, in instance \<open>i\<close> with the rendered state \<open>st\<close>.\<close>

definition onSubmit_start :: "nat \<Rightarrow> login_state \<Rightarrow> effect list" where
  "onSubmit_start i st =
     SetLoading i True #
     (if isCreateAccount st
      then [Send (register_request (name st) (email st) (password st)) (AwaitRegister i)]
      else [Send (login_request (email st) (password st)) (AwaitLogin i)])"

text \<open>The request the handler posts and the \<open>await\<close> point it suspends at, by mode.\<close>

definition submit_request :: "login_state \<Rightarrow> request" where
  "submit_request st =
     (if isCreateAccount st then register_request (name st) (email st) (password st)
      else login_request (email st) (password st))"

definition submit_await :: "nat \<Rightarrow> login_state \<Rightarrow> await_point" where
  "submit_await i st = (if isCreateAccount st then AwaitRegister i else AwaitLogin i)"

text \<open>\<open>error.response?.data?.message || "Invalid credentials"\<close>.\<close>

definition login_error_message :: "axios_error \<Rightarrow> json" where
  "login_error_message e =
     js_or (js_opt_member (error_response_data e) ''message'') (JStr ''Invalid credentials'')"

text \<open>The \<open>catch\<close> block followed by \<open>finally\<close>.\<close>

definition submit_failed :: "nat \<Rightarrow> axios_error \<Rightarrow> effect list" where
  "submit_failed i e = [ShowToast ToastError (login_error_message e), SetLoading i False]"

definition register_resume :: "nat \<Rightarrow> reply \<Rightarrow> effect list" where
  "register_resume i r =
     (case axios_settle r of
        Inr resp \<Rightarrow>
          if status resp = 201 then getUserData_call (FromRegister i)
          else [SetLoading i False]
      | Inl e \<Rightarrow> submit_failed i e)"

definition register_after_profile :: "nat \<Rightarrow> reply \<Rightarrow> effect list" where
  "register_after_profile i r =
     getUserData_resume r @
     [SetIsLoggedIn True, ShowToast ToastSuccess (JStr ''Account created successfully.''),
      Navigate ''/'', SetLoading i False]"

definition login_resume :: "nat \<Rightarrow> reply \<Rightarrow> effect list" where
  "login_resume i r =
     (case axios_settle r of
        Inr resp \<Rightarrow>
          if status resp = 200 then SetIsLoggedIn True # getUserData_call (FromLogin i)
          else [SetLoading i False]
      | Inl e \<Rightarrow> submit_failed i e)"

definition login_after_profile :: "nat \<Rightarrow> reply \<Rightarrow> effect list" where
  "login_after_profile i r =
     getUserData_resume r @
     [ShowToast ToastSuccess (JStr ''Login successful''), Navigate ''/'', SetLoading i False]"

lemmas login_page_defs [effect_simps] =
  onSubmit_start_def submit_failed_def register_resume_def register_after_profile_def
  login_resume_def login_after_profile_def

section \<open>The fragments meet the resumption contract\<close>

text \<open>Every answer to a submit either awaits the profile or runs \<open>finally\<close>.\<close>

lemma register_resume_closes: "closes_gap (Some i) (register_resume i r)"
  by (simp add: register_resume_def submit_failed_def getUserData_call_def profile_request_def
      closes_gap_def split: sum.split)

lemma login_resume_closes: "closes_gap (Some i) (login_resume i r)"
  by (simp add: login_resume_def submit_failed_def getUserData_call_def profile_request_def
      closes_gap_def split: sum.split)

lemma register_after_profile_closes: "closes_gap (Some i) (register_after_profile i r)"
  by (simp add: register_after_profile_def closes_gap_def getUserData_resume_inert)

lemma login_after_profile_closes: "closes_gap (Some i) (login_after_profile i r)"
  by (simp add: login_after_profile_def closes_gap_def getUserData_resume_inert)

lemma onSubmit_start_eq:
  "onSubmit_start i st = [SetLoading i True, Send (submit_request st) (submit_await i st)]"
  by (simp add: onSubmit_start_def submit_request_def submit_await_def)

lemma onSubmit_start_shape:
  "\<exists>q k. onSubmit_start i st = [SetLoading i True, Send q k] \<and> await_owner k = Some i \<and>
     with_credentials q"
  by (simp add: onSubmit_start_def register_request_def login_request_def)

lemma loading_set_field [simp]: "loading (set_field f v st) = loading st"
  by (cases f) simp_all

lemma loading_switch_mode [simp]: "loading (switch_mode st) = loading st"
  by (simp add: switch_mode_def)

lemmas form_check_defs =
  submit_enabled_def form_valid_def valid_email_def email_label_ok_def email_local_char_def
  is_ascii_alnum_def input_enabled_def

section \<open>The e-mail constraint\<close>

lemma split_on_nonempty: "split_on c s \<noteq> []"
  by (induction s) (auto split: list.split)

lemma concat_split_on: "concat (split_on c s) = filter (\<lambda>x. x \<noteq> c) s"
proof (induction s)
  case Nil
  then show ?case by simp
next
  case (Cons x s)
  then show ?case
    using split_on_nonempty [of c s] by (auto split: list.split)
qed

lemma at_not_label_char: "\<not> (is_ascii_alnum (CHR ''@'') \<or> CHR ''@'' = CHR ''-'')"
  by (simp add: is_ascii_alnum_def)

lemma labels_no_at:
  assumes "list_all email_label_ok (split_on (CHR ''.'') d)"
  shows "CHR ''@'' \<notin> set d"
proof
  assume at: "CHR ''@'' \<in> set d"
  then have "CHR ''@'' \<in> set (concat (split_on (CHR ''.'') d))"
    by (simp add: concat_split_on)
  then obtain l where l: "l \<in> set (split_on (CHR ''.'') d)" "CHR ''@'' \<in> set l"
    by auto
  with assms have "list_all (\<lambda>c. is_ascii_alnum c \<or> c = CHR ''-'') l"
    by (auto simp: list_all_iff email_label_ok_def)
  with l(2) at_not_label_char show False by (auto simp: list_all_iff)
qed

text \<open>An e-mail value that passes the \<open>type="email"\<close> constraint consists of a
  non-empty local part, exactly one \<open>@\<close>, and a non-empty domain; neither part
  contains another \<open>@\<close>.\<close>

lemma valid_email_single_at:
  assumes "valid_email s"
  shows "\<exists>l d. s = l @ CHR ''@'' # d \<and> l \<noteq> [] \<and> d \<noteq> [] \<and>
     CHR ''@'' \<notin> set l \<and> CHR ''@'' \<notin> set d"
proof -
  let ?l = "takeWhile (\<lambda>c. c \<noteq> CHR ''@'') s"
  let ?r = "dropWhile (\<lambda>c. c \<noteq> CHR ''@'') s"
  from assms obtain x d where r: "?r = x # d"
    and l: "?l \<noteq> []" and labels: "list_all email_label_ok (split_on (CHR ''.'') d)"
    by (auto simp: valid_email_def Let_def split: list.splits)
  from r have x: "x = CHR ''@''"
    by (metis (mono_tags, lifting) hd_dropWhile list.discI list.sel(1))
  have s: "s = ?l @ CHR ''@'' # d"
    using takeWhile_dropWhile_id [of "\<lambda>c. c \<noteq> CHR ''@''" s] r x by simp
  have "?l \<noteq> []" by (rule l)
  moreover have "CHR ''@'' \<notin> set ?l" by (auto dest: set_takeWhileD)
  moreover have "CHR ''@'' \<notin> set d" using labels by (rule labels_no_at)
  moreover have "d \<noteq> []"
    using labels by (auto simp: email_label_ok_def)
  ultimately show ?thesis using s by blast
qed

end
