(* ===== verification/App_Router.thy ===== *)
theory App_Router
  imports Auth_Prelude
begin

text \<open>
  The route table of \<open>src/client/src/App.jsx\<close>: four routes, each rendering one page.
  Paths are matched exactly; a path outside the table renders no page. Only the Login
  page is part of the sources; the other three pages are named here so that the event
  loop can tell when the Login page is mounted and unmounted.
\<close>

datatype page = HomePage | LoginPage | EmailVerifyPage | ResetPasswordPage

definition route_of :: "string \<Rightarrow> page option" where
  "route_of p =
     (if p = ''/'' then Some HomePage
      else if p = ''/login'' then Some LoginPage
      else if p = ''/email-verify'' then Some EmailVerifyPage
      else if p = ''/reset-password'' then Some ResetPasswordPage
      else None)"

lemma route_of_login_iff: "route_of p = Some LoginPage \<longleftrightarrow> p = ''/login''"
  by (simp add: route_of_def)

lemma route_of_root [simp]: "route_of ''/'' = Some HomePage"
  by (simp add: route_of_def)

lemma route_of_login [simp]: "route_of ''/login'' = Some LoginPage"
  by (simp add: route_of_def)

end
