(* ===== verification/Event_Loop.thy ===== *)
theory Event_Loop
  imports Login_Page App_Router
begin

text \<open>
  The running application: one browser tab with the context provider mounted, the
  router's current location, at most one mounted Login page, and the requests that are
  in flight. The JavaScript event loop runs one macrotask at a time, and each of the
  code fragments of the components runs inside one of them without interruption:
  \<^item> \<open>Resolve n r\<close>: the network answers request \<open>n\<close> with \<open>r\<close>; the \<open>await\<close>
    point that sent it resumes (\<open>resume\<close>);
  \<^item> \<open>Input f v\<close>, \<open>SwitchMode\<close>, \<open>Submit\<close>: the user edits an input, clicks the mode
    switch, or submits the Login form;
  \<^item> \<open>FollowLink p\<close>: the user clicks the mounted Login page's \<open>Link\<close> to \<open>p\<close>;
  \<^item> \<open>Visit p\<close>: the user goes to \<open>p\<close> otherwise (a link of a page outside the sources,
    or the history).
  Which event comes next is the environment's choice: \<open>run\<close> executes any list of
  events, and \<open>reach\<close> is the set of worlds some list of events leads to. The interpreter
  \<open>apply_effect\<close> gives the calls of \<open>Async_Effects\<close> their meaning; a request that is
  sent becomes a task with a fresh id, logged in \<open>sent\<close>.
\<close>

record task =
  task_id :: nat
  task_req :: request
  task_await :: await_point

record world =
  ctx :: app_ctx
  location :: string
  login_page :: "(nat \<times> login_state) option"
  next_inst :: nat
  tasks :: "task list"
  next_req :: nat
  toasts :: "(toast_kind \<times> json) list"
  sent :: "request list"

section \<open>Navigation and the effect interpreter\<close>

text \<open>\<open>navigate\<close> (and a followed link): the location changes; when the matched route
  changes, the old page unmounts and the new one mounts, a Login page with a fresh
  instance number and its initial state.\<close>

definition navigate :: "string \<Rightarrow> world \<Rightarrow> world" where
  "navigate p w =
     (if route_of p = route_of (location w) then w\<lparr>location := p\<rparr>
      else if route_of p = Some LoginPage
      then w\<lparr>location := p, login_page := Some (next_inst w, login_init),
             next_inst := Suc (next_inst w)\<rparr>
      else w\<lparr>location := p, login_page := None\<rparr>)"

text \<open>\<open>setLoading\<close> of instance \<open>i\<close>: a no-op once that instance is unmounted.\<close>

definition set_loading :: "nat \<Rightarrow> bool \<Rightarrow> world \<Rightarrow> world" where
  "set_loading i b w =
     (case login_page w of
        Some (j, st) \<Rightarrow> if j = i then w\<lparr>login_page := Some (j, st\<lparr>loading := b\<rparr>)\<rparr> else w
      | None \<Rightarrow> w)"

definition send :: "request \<Rightarrow> await_point \<Rightarrow> world \<Rightarrow> world" where
  "send r k w =
     w\<lparr>tasks := tasks w @ [\<lparr>task_id = next_req w, task_req = r, task_await = k\<rparr>],
       next_req := Suc (next_req w), sent := sent w @ [r]\<rparr>"

fun apply_effect :: "effect \<Rightarrow> world \<Rightarrow> world" where
  "apply_effect (SetIsLoggedIn b) w = w\<lparr>ctx := ctx_effect (SetIsLoggedIn b) (ctx w)\<rparr>"
| "apply_effect (SetUserData d) w = w\<lparr>ctx := ctx_effect (SetUserData d) (ctx w)\<rparr>"
| "apply_effect (ShowToast k m) w = w\<lparr>toasts := toasts w @ [(k, m)]\<rparr>"
| "apply_effect (Navigate p) w = navigate p w"
| "apply_effect (SetLoading i b) w = set_loading i b w"
| "apply_effect (Send r k) w = send r k w"

definition apply_effects :: "effect list \<Rightarrow> world \<Rightarrow> world" where
  "apply_effects es w = fold apply_effect es w"

section \<open>Resumption and events\<close>

fun resume :: "await_point \<Rightarrow> reply \<Rightarrow> effect list" where
  "resume AwaitAuthCheck r = getAuthState_resume r"
| "resume (AwaitProfile FromAuthState) r = getUserData_resume r"
| "resume (AwaitProfile (FromRegister i)) r = register_after_profile i r"
| "resume (AwaitProfile (FromLogin i)) r = login_after_profile i r"
| "resume (AwaitRegister i) r = register_resume i r"
| "resume (AwaitLogin i) r = login_resume i r"

definition find_task :: "nat \<Rightarrow> task list \<Rightarrow> task option" where
  "find_task n ts = find (\<lambda>t. task_id t = n) ts"

datatype event =
    Resolve nat reply
  | Input field string
  | SwitchMode
  | Submit
  | FollowLink string
  | Visit string

fun step :: "event \<Rightarrow> world \<Rightarrow> world" where
  "step (Resolve n r) w =
     (case find_task n (tasks w) of
        None \<Rightarrow> w
      | Some t \<Rightarrow> apply_effects (resume (task_await t) r) (w\<lparr>tasks := remove1 t (tasks w)\<rparr>))"
| "step (Input f v) w =
     (case login_page w of
        None \<Rightarrow> w
      | Some (i, st) \<Rightarrow>
          if input_enabled f st then w\<lparr>login_page := Some (i, set_field f v st)\<rparr> else w)"
| "step SwitchMode w =
     (case login_page w of
        None \<Rightarrow> w
      | Some (i, st) \<Rightarrow> w\<lparr>login_page := Some (i, switch_mode st)\<rparr>)"
| "step Submit w =
     (case login_page w of
        None \<Rightarrow> w
      | Some (i, st) \<Rightarrow> if submit_enabled st then apply_effects (onSubmit_start i st) w else w)"
| "step (FollowLink p) w =
     (case login_page w of
        None \<Rightarrow> w
      | Some _ \<Rightarrow> if p \<in> set login_links then navigate p w else w)"
| "step (Visit p) w = navigate p w"

fun run :: "event list \<Rightarrow> world \<Rightarrow> world" where
  "run [] w = w"
| "run (e # es) w = run es (step e w)"

text \<open>Loading the application at path \<open>p\<close>: the store starts logged out with no user,
  the page of \<open>p\<close> mounts (instance 0 if it is the Login page), and the provider's
  \<open>useEffect\<close> starts \<open>getAuthState\<close>.\<close>

definition world0 :: "string \<Rightarrow> world" where
  "world0 p =
     \<lparr>ctx = ctx_init, location = p,
      login_page = (if route_of p = Some LoginPage then Some (0, login_init) else None),
      next_inst = 1, tasks = [], next_req = 0, toasts = [], sent = []\<rparr>"

definition init_world :: "string \<Rightarrow> world" where
  "init_world p = apply_effects getAuthState_start (world0 p)"

inductive reach :: "world \<Rightarrow> bool" where
  init: "reach (init_world p)"
| step: "reach w \<Longrightarrow> reach (step e w)"

section \<open>Evaluation lemmas\<close>

lemma apply_effects_Nil [simp, effect_simps]: "apply_effects [] w = w"
  by (simp add: apply_effects_def)

lemma apply_effects_Cons [simp, effect_simps]:
  "apply_effects (e # es) w = apply_effects es (apply_effect e w)"
  by (simp add: apply_effects_def)

lemma apply_effects_append [simp]:
  "apply_effects (xs @ ys) w = apply_effects ys (apply_effects xs w)"
  by (simp add: apply_effects_def)

lemma run_append: "run (xs @ ys) w = run ys (run xs w)"
  by (induction xs arbitrary: w) auto

lemma reach_run: "reach w \<Longrightarrow> reach (run es w)"
  by (induction es arbitrary: w) (auto intro: reach.step)

lemma find_task_append_fresh:
  "\<forall>t \<in> set ts. task_id t \<noteq> n \<Longrightarrow>
   find_task n (ts @ [\<lparr>task_id = n, task_req = r, task_await = k\<rparr>]) =
     Some \<lparr>task_id = n, task_req = r, task_await = k\<rparr>"
  by (induction ts) (auto simp: find_task_def)

lemma find_task_Some: "find_task n ts = Some t \<Longrightarrow> t \<in> set ts \<and> task_id t = n"
  by (auto simp: find_task_def find_Some_iff)

lemma find_task_remove1_other:
  "task_id u \<noteq> n \<Longrightarrow> find_task n (remove1 u ts) = find_task n ts"
  by (induction ts) (auto simp: find_task_def)

lemmas event_loop_defs [effect_simps] = navigate_def set_loading_def send_def

text \<open>Everything needed to evaluate a concrete run from a page load.\<close>

lemmas run_eval_defs =
  effect_simps init_world_def world0_def login_init_def form_check_defs find_task_def
  login_links_def logo_link_def forgot_password_link_def

end
