(* ===== verification/World_Invariant.thy ===== *)
theory World_Invariant
  imports Event_Loop
begin

text \<open>
  The invariant of every reachable world, proved by rule induction over \<open>reach\<close>.
  Its frame part says that request ids are fresh and distinct, that a Login page is
  mounted exactly when the location routes to it and carries an instance number that
  was handed out, that every owner of an in-flight request was handed out, that each
  owner (a Login instance, or the context's bootstrap chain) has at most one request in
  flight, and that every request sent carried credentials. Its tracking part says that
  the mounted Login page's \<open>loading\<close> flag is set exactly while that instance has a
  request in flight.

  Between taking an answer off the in-flight list and running the resumed fragment, the
  owner of the answered request is in a gap (\<open>world_gap\<close>): nothing of it is in flight
  while its \<open>loading\<close> flag is still set. The fragment contract \<open>closes_gap\<close> of
  \<open>Async_Effects\<close>, which each component discharges for its own fragments, is what
  closes the gap again.
\<close>

definition owned :: "nat option \<Rightarrow> task list \<Rightarrow> task list" where
  "owned own ts = filter (\<lambda>t. await_owner (task_await t) = own) ts"

definition ids_fresh :: "world \<Rightarrow> bool" where
  "ids_fresh w \<longleftrightarrow> (\<forall>t \<in> set (tasks w). task_id t < next_req w)"

definition ids_distinct :: "world \<Rightarrow> bool" where
  "ids_distinct w \<longleftrightarrow> distinct (map task_id (tasks w))"

definition page_consistent :: "world \<Rightarrow> bool" where
  "page_consistent w \<longleftrightarrow>
     (login_page w \<noteq> None \<longleftrightarrow> route_of (location w) = Some LoginPage) \<and>
     (\<forall>i st. login_page w = Some (i, st) \<longrightarrow> i < next_inst w)"

definition owners_known :: "world \<Rightarrow> bool" where
  "owners_known w \<longleftrightarrow>
     (\<forall>t \<in> set (tasks w). \<forall>i. await_owner (task_await t) = Some i \<longrightarrow> i < next_inst w)"

definition one_in_flight :: "world \<Rightarrow> bool" where
  "one_in_flight w \<longleftrightarrow> (\<forall>own. length (owned own (tasks w)) \<le> 1)"

definition credentials_sent :: "world \<Rightarrow> bool" where
  "credentials_sent w \<longleftrightarrow> list_all with_credentials (sent w)"

definition frame_inv :: "world \<Rightarrow> bool" where
  "frame_inv w \<longleftrightarrow>
     ids_fresh w \<and> ids_distinct w \<and> page_consistent w \<and> owners_known w \<and>
     one_in_flight w \<and> credentials_sent w"

text \<open>\<open>tracks own w\<close>: the mounted page's \<open>loading\<close> follows its in-flight requests,
  except for the owner \<open>own\<close> in a gap, whose flag is still set.\<close>

definition tracks :: "nat option \<Rightarrow> world \<Rightarrow> bool" where
  "tracks own w \<longleftrightarrow>
     (\<forall>i st. login_page w = Some (i, st) \<longrightarrow>
        (if own = Some i then loading st else (loading st \<longleftrightarrow> owned (Some i) (tasks w) \<noteq> [])))"

definition own_bounded :: "nat option \<Rightarrow> world \<Rightarrow> bool" where
  "own_bounded own w \<longleftrightarrow> (case own of None \<Rightarrow> True | Some i \<Rightarrow> i < next_inst w)"

definition world_inv :: "world \<Rightarrow> bool" where
  "world_inv w \<longleftrightarrow> frame_inv w \<and> tracks None w"

definition world_gap :: "nat option \<Rightarrow> world \<Rightarrow> bool" where
  "world_gap own w \<longleftrightarrow>
     frame_inv w \<and> tracks own w \<and> own_bounded own w \<and> owned own (tasks w) = []"

declare ids_fresh_def [inv_simps] ids_distinct_def [inv_simps] page_consistent_def [inv_simps]
  owners_known_def [inv_simps] one_in_flight_def [inv_simps] credentials_sent_def [inv_simps]
  frame_inv_def [inv_simps]

section \<open>Lists of in-flight requests\<close>

lemma owned_append [simp]: "owned own (xs @ ys) = owned own xs @ owned own ys"
  by (simp add: owned_def)

lemma owned_single [simp]:
  "owned own [t] = (if await_owner (task_await t) = own then [t] else [])"
  by (simp add: owned_def)

lemma owned_remove1_distinct:
  assumes "distinct ts"
  shows "owned own (remove1 t ts) = filter (\<lambda>u. u \<noteq> t) (owned own ts)"
  using assms
  by (simp add: owned_def distinct_remove1_removeAll removeAll_filter_not_eq filter_filter)
     (rule filter_cong, auto)

lemma owned_of_owner:
  assumes "t \<in> set ts" "length (owned (await_owner (task_await t)) ts) \<le> 1"
  shows "owned (await_owner (task_await t)) ts = [t]"
proof -
  let ?o = "await_owner (task_await t)"
  from assms(1) have "t \<in> set (owned ?o ts)" by (simp add: owned_def)
  with assms(2) show ?thesis
    by (cases "owned ?o ts") (auto simp: le_Suc_eq)
qed

lemma owned_empty_iff: "owned own ts = [] \<longleftrightarrow> (\<forall>t \<in> set ts. await_owner (task_await t) \<noteq> own)"
  by (auto simp: owned_def filter_empty_conv)

section \<open>Inert effects\<close>

lemma inert_keeps_requests:
  "inert e \<Longrightarrow> tasks (apply_effect e w) = tasks w \<and> next_req (apply_effect e w) = next_req w
     \<and> sent (apply_effect e w) = sent w"
  by (cases e) (simp_all add: navigate_def)

lemma inert_page_cases:
  assumes "inert e"
  obtains (same) "login_page (apply_effect e w) = login_page w"
      "next_inst (apply_effect e w) = next_inst w"
      "route_of (location (apply_effect e w)) = route_of (location w)"
    | (unmount) "login_page (apply_effect e w) = None"
      "next_inst (apply_effect e w) = next_inst w"
      "route_of (location (apply_effect e w)) \<noteq> Some LoginPage"
    | (mount) "login_page (apply_effect e w) = Some (next_inst w, login_init)"
      "next_inst (apply_effect e w) = Suc (next_inst w)"
      "route_of (location (apply_effect e w)) = Some LoginPage"
  using assms
proof (cases e)
  case (Navigate p)
  consider "route_of p = route_of (location w)"
    | "route_of p \<noteq> route_of (location w)" "route_of p = Some LoginPage"
    | "route_of p \<noteq> route_of (location w)" "route_of p \<noteq> Some LoginPage"
    by blast
  then show ?thesis
  proof cases
    case 1
    with Navigate show ?thesis by (intro same) (simp_all add: navigate_def)
  next
    case 2
    with Navigate show ?thesis by (intro mount) (simp_all add: navigate_def)
  next
    case 3
    with Navigate show ?thesis by (intro unmount) (simp_all add: navigate_def)
  qed
qed (use same in simp_all)

lemma inert_frame_tracks:
  assumes "frame_inv w" "tracks own w" "own_bounded own w" "inert e"
  shows "frame_inv (apply_effect e w) \<and> tracks own (apply_effect e w) \<and>
     own_bounded own (apply_effect e w)"
  using assms(4)
proof (cases rule: inert_page_cases [where w = w])
  case same
  with assms inert_keeps_requests [OF assms(4)] show ?thesis
    by (auto simp: inv_simps tracks_def own_bounded_def split: option.splits)
next
  case unmount
  with assms inert_keeps_requests [OF assms(4)] show ?thesis
    by (auto simp: inv_simps tracks_def own_bounded_def split: option.splits)
next
  case mount
  from assms(1) have "owned (Some (next_inst w)) (tasks w) = []"
    by (auto simp: inv_simps owned_empty_iff)
  moreover from assms(3) have "own \<noteq> Some (next_inst w)"
    by (auto simp: own_bounded_def)
  ultimately show ?thesis
    using mount assms inert_keeps_requests [OF assms(4)]
    by (auto simp: inv_simps tracks_def own_bounded_def login_init_def less_Suc_eq
        split: option.splits)
qed

lemma inert_list_frame_tracks:
  "list_all inert es \<Longrightarrow> frame_inv w \<Longrightarrow> tracks own w \<Longrightarrow> own_bounded own w \<Longrightarrow>
   frame_inv (apply_effects es w) \<and> tracks own (apply_effects es w) \<and>
   own_bounded own (apply_effects es w) \<and> tasks (apply_effects es w) = tasks w"
proof (induction es arbitrary: w)
  case Nil
  then show ?case by simp
next
  case (Cons e es)
  then have "frame_inv (apply_effect e w) \<and> tracks own (apply_effect e w) \<and>
      own_bounded own (apply_effect e w)"
    by (intro inert_frame_tracks) simp_all
  with Cons show ?case by (simp add: inert_keeps_requests)
qed

lemma inert_list_gap:
  "list_all inert es \<Longrightarrow> world_gap own w \<Longrightarrow> world_gap own (apply_effects es w)"
  using inert_list_frame_tracks [of es w own] by (simp add: world_gap_def)

lemma inert_list_inv:
  "list_all inert es \<Longrightarrow> world_inv w \<Longrightarrow> world_inv (apply_effects es w)"
  using inert_list_frame_tracks [of es w None] by (simp add: world_inv_def own_bounded_def)

section \<open>Opening and closing a gap\<close>

lemma gap_send:
  assumes "world_gap own w" "await_owner k = own" "with_credentials q"
  shows "world_inv (send q k w)"
proof -
  let ?t = "\<lparr>task_id = next_req w, task_req = q, task_await = k\<rparr>"
  from assms(1) have fresh: "?t \<notin> set (tasks w)" "next_req w \<notin> task_id ` set (tasks w)"
    by (auto simp: world_gap_def inv_simps)
  have one: "length (owned own' (tasks w @ [?t])) \<le> 1" for own'
    using assms(1,2) by (auto simp: world_gap_def inv_simps)
  show ?thesis
    using assms fresh one
    by (auto simp: world_inv_def world_gap_def inv_simps tracks_def own_bounded_def send_def
        less_Suc_eq split: option.splits)
qed

lemma gap_clear:
  assumes gap: "world_gap (Some i) w"
  shows "world_inv (set_loading i False w)"
proof (cases "login_page w")
  case None
  with gap show ?thesis
    by (simp add: set_loading_def world_gap_def world_inv_def tracks_def)
next
  case (Some p)
  obtain j st where p: "p = (j, st)" by (cases p)
  show ?thesis
  proof (cases "j = i")
    case True
    have "frame_inv (w\<lparr>login_page := Some (i, st\<lparr>loading := False\<rparr>)\<rparr>)"
      using gap Some p True by (simp add: world_gap_def inv_simps)
    moreover have "tracks None (w\<lparr>login_page := Some (i, st\<lparr>loading := False\<rparr>)\<rparr>)"
      using gap by (simp add: world_gap_def tracks_def)
    ultimately show ?thesis
      using Some p True by (simp add: set_loading_def world_inv_def)
  next
    case False
    with gap Some p show ?thesis
      by (simp add: set_loading_def world_gap_def world_inv_def tracks_def)
  qed
qed

lemma gap_none: "world_gap None w \<Longrightarrow> world_inv w"
  by (simp add: world_gap_def world_inv_def)

text \<open>The contract closes the gap: the whole resumed fragment restores the invariant.\<close>

lemma gap_closed:
  assumes "world_gap own w" "closes_gap own es"
  shows "world_inv (apply_effects es w)"
  using assms(2)
proof (cases rule: closes_gap_cases)
  case (awaits ps q k)
  with assms(1) have "world_gap own (apply_effects ps w)" by (simp add: inert_list_gap)
  with awaits show ?thesis by (simp add: gap_send)
next
  case (cleared ps i)
  with assms(1) have "world_gap (Some i) (apply_effects ps w)" by (simp add: inert_list_gap)
  with cleared show ?thesis by (simp add: gap_clear)
next
  case ended
  with assms(1) show ?thesis by (simp add: inert_list_gap gap_none)
qed

text \<open>Taking an answered request off the in-flight list opens a gap for its owner.\<close>

lemma answer_opens_gap:
  assumes inv: "world_inv w" and found: "find_task n (tasks w) = Some t"
  shows "world_gap (await_owner (task_await t)) (w\<lparr>tasks := remove1 t (tasks w)\<rparr>)"
proof -
  let ?o = "await_owner (task_await t)"
  from found have t: "t \<in> set (tasks w)" by (simp add: find_task_Some)
  from inv have dist: "distinct (tasks w)"
    by (auto simp: world_inv_def inv_simps distinct_map)
  from inv t have single: "owned ?o (tasks w) = [t]"
    by (intro owned_of_owner) (auto simp: world_inv_def inv_simps)
  have owned_rm: "owned own (remove1 t (tasks w)) = filter (\<lambda>u. u \<noteq> t) (owned own (tasks w))"
    for own using dist by (rule owned_remove1_distinct)
  have other: "own \<noteq> ?o \<Longrightarrow> owned own (remove1 t (tasks w)) = owned own (tasks w)" for own
    unfolding owned_rm by (rule filter_True) (auto simp: owned_def)
  have gone: "owned ?o (remove1 t (tasks w)) = []"
    unfolding owned_rm single by simp
  have rm: "remove1 t (tasks w) = filter ((\<noteq>) t) (tasks w)"
    using dist by (simp add: distinct_remove1_removeAll removeAll_filter_not_eq)
  have frame: "frame_inv (w\<lparr>tasks := remove1 t (tasks w)\<rparr>)"
  proof -
    have "length (owned own (remove1 t (tasks w))) \<le> 1" for own
      using inv unfolding owned_rm
      by (metis (no_types, lifting) dual_order.trans length_filter_le world_inv_def
          frame_inv_def one_in_flight_def)
    moreover have "distinct (map task_id (remove1 t (tasks w)))"
      using inv unfolding rm by (simp add: world_inv_def inv_simps distinct_map_filter)
    ultimately show ?thesis
      using inv unfolding rm by (auto simp: world_inv_def inv_simps)
  qed
  have trk: "tracks ?o (w\<lparr>tasks := remove1 t (tasks w)\<rparr>)"
    using inv single other by (auto simp: world_inv_def tracks_def)
  have bnd: "own_bounded ?o (w\<lparr>tasks := remove1 t (tasks w)\<rparr>)"
    using inv t by (auto simp: world_inv_def inv_simps own_bounded_def split: option.splits)
  show ?thesis using frame trk bnd gone by (simp add: world_gap_def)
qed

lemma resume_closes: "closes_gap (await_owner k) (resume k r)"
proof (cases k)
  case (AwaitProfile c)
  then show ?thesis
    by (cases c) (simp_all add: getUserData_resume_closes register_after_profile_closes
        login_after_profile_closes)
qed (simp_all add: getAuthState_resume_closes register_resume_closes login_resume_closes)

text \<open>A submit opens a gap for the submitting instance: \<open>loading\<close> is set and
  nothing of it is in flight yet.\<close>

lemma submit_opens_gap:
  assumes "world_inv w" "login_page w = Some (i, st)" "\<not> loading st"
  shows "world_gap (Some i) (set_loading i True w)"
  using assms
  by (auto simp: world_inv_def world_gap_def inv_simps tracks_def own_bounded_def
      set_loading_def)

lemma edit_keeps_inv:
  assumes "world_inv w" "login_page w = Some (i, st)" "loading st' = loading st"
  shows "world_inv (w\<lparr>login_page := Some (i, st')\<rparr>)"
  using assms by (auto simp: world_inv_def inv_simps tracks_def)

section \<open>Every step keeps the invariant\<close>

lemma init_world_inv: "world_inv (init_world p)"
proof -
  have "world_gap None (world0 p)"
    by (auto simp: world_gap_def inv_simps tracks_def own_bounded_def world0_def
        login_init_def owned_def)
  then show ?thesis
    by (simp add: init_world_def getAuthState_start_def is_authenticated_request_def gap_send)
qed

lemma step_world_inv:
  assumes inv: "world_inv w"
  shows "world_inv (step e w)"
proof (cases e)
  case (Resolve n r)
  show ?thesis
  proof (cases "find_task n (tasks w)")
    case None
    with Resolve inv show ?thesis by simp
  next
    case (Some t)
    from inv Some
    have "world_gap (await_owner (task_await t)) (w\<lparr>tasks := remove1 t (tasks w)\<rparr>)"
      by (rule answer_opens_gap)
    then have "world_inv (apply_effects (resume (task_await t) r)
        (w\<lparr>tasks := remove1 t (tasks w)\<rparr>))"
      using resume_closes by (rule gap_closed)
    with Resolve Some show ?thesis by simp
  qed
next
  case (Input f v)
  with inv show ?thesis by (auto simp: edit_keeps_inv split: option.splits)
next
  case SwitchMode
  with inv show ?thesis by (auto simp: edit_keeps_inv split: option.splits)
next
  case Submit
  show ?thesis
  proof (cases "login_page w")
    case None
    with Submit inv show ?thesis by simp
  next
    case (Some p)
    obtain i st where p: "p = (i, st)" by (cases p)
    show ?thesis
    proof (cases "submit_enabled st")
      case True
      then have "\<not> loading st" by (simp add: submit_enabled_def)
      with inv Some p have gap: "world_gap (Some i) (set_loading i True w)"
        by (simp add: submit_opens_gap)
      obtain q k where qk: "onSubmit_start i st = [SetLoading i True, Send q k]"
        "await_owner k = Some i" "with_credentials q"
        using onSubmit_start_shape by blast
      from gap qk(2,3) have "world_inv (send q k (set_loading i True w))"
        by (rule gap_send)
      with Submit Some p True qk(1) show ?thesis by simp
    next
      case False
      with Submit Some p inv show ?thesis by simp
    qed
  qed
next
  case (FollowLink p)
  have "world_inv (apply_effects [Navigate p] w)"
    using inv by (intro inert_list_inv) simp_all
  with FollowLink inv show ?thesis by (simp split: option.split)
next
  case (Visit p)
  have "world_inv (apply_effects [Navigate p] w)"
    using inv by (intro inert_list_inv) simp_all
  with Visit show ?thesis by simp
qed

theorem reach_world_inv: "reach w \<Longrightarrow> world_inv w"
proof (induction rule: reach.induct)
  case (init p)
  show ?case by (rule init_world_inv)
next
  case (step w e)
  from step.IH show ?case by (rule step_world_inv)
qed

section \<open>Consequences for reachable worlds\<close>

lemma inv_in_flight_le_one:
  "world_inv w \<Longrightarrow> length (filter (\<lambda>t. await_owner (task_await t) = own) (tasks w)) \<le> 1"
  by (simp add: world_inv_def inv_simps owned_def)

lemma inv_loading_iff:
  "world_inv w \<Longrightarrow> login_page w = Some (i, st) \<Longrightarrow>
   loading st \<longleftrightarrow> (\<exists>t \<in> set (tasks w). await_owner (task_await t) = Some i)"
  by (auto simp: world_inv_def tracks_def owned_empty_iff)

lemma apply_effect_tasks:
  "t \<in> set (tasks (apply_effect e w)) \<Longrightarrow> t \<in> set (tasks w) \<or> next_req w \<le> task_id t"
  by (cases e) (auto simp: navigate_def set_loading_def send_def split: option.splits if_splits)

lemma apply_effects_tasks:
  "t \<in> set (tasks (apply_effects es w)) \<Longrightarrow> t \<in> set (tasks w) \<or> next_req w \<le> task_id t"
proof (induction es arbitrary: w)
  case Nil
  then show ?case by simp
next
  case (Cons e es)
  have "next_req w \<le> next_req (apply_effect e w)"
    by (cases e) (simp_all add: navigate_def set_loading_def send_def split: option.splits)
  with Cons apply_effect_tasks [of t e w] show ?case by fastforce
qed

section \<open>Request discipline\<close>

text \<open>C4. In every reachable world, each Login page instance has at most one request in
  flight: the submit handler never issues a second request before the first one has
  been answered and handled.\<close>

theorem at_most_one_in_flight:
  assumes "reach w"
  shows "length (filter (\<lambda>t. await_owner (task_await t) = Some i) (tasks w)) \<le> 1"
  by (rule inv_in_flight_le_one [OF reach_world_inv [OF assms]])

theorem at_most_one_in_flight_witness:
  "reach (run [Input FEmail ''a@b.co'', Input FPassword ''pw'', Submit] (init_world ''/login''))
   \<and> length (filter (\<lambda>t. await_owner (task_await t) = Some 0)
       (tasks (run [Input FEmail ''a@b.co'', Input FPassword ''pw'', Submit] (init_world ''/login'')))) \<le> 1"
proof -
  have r: "reach (run [Input FEmail ''a@b.co'', Input FPassword ''pw'', Submit] (init_world ''/login''))"
    by (rule reach_run [OF reach.init])
  show ?thesis using r at_most_one_in_flight [OF r, of 0] by simp
qed

text \<open>C5. In every reachable world, the mounted Login page shows \<open>loading\<close> (its
  submit button disabled) exactly while a request of that page instance is in flight.\<close>

theorem loading_iff_in_flight:
  assumes "reach w" "login_page w = Some (i, st)"
  shows "loading st \<longleftrightarrow> (\<exists>t \<in> set (tasks w). await_owner (task_await t) = Some i)"
  by (rule inv_loading_iff [OF reach_world_inv [OF assms(1)] assms(2)])

theorem loading_iff_in_flight_witness:
  "reach (run [Input FEmail ''a@b.co'', Input FPassword ''pw'', Submit] (init_world ''/login''))
   \<and> login_page (run [Input FEmail ''a@b.co'', Input FPassword ''pw'', Submit] (init_world ''/login'')) = Some (0, login_init\<lparr>email := ''a@b.co'', password := ''pw'', loading := True\<rparr>)
   \<and> (loading (login_init\<lparr>email := ''a@b.co'', password := ''pw'', loading := True\<rparr>)
       \<longleftrightarrow> (\<exists>t \<in> set (tasks (run [Input FEmail ''a@b.co'', Input FPassword ''pw'', Submit] (init_world ''/login''))). await_owner (task_await t) = Some 0))"
proof -
  have r: "reach (run [Input FEmail ''a@b.co'', Input FPassword ''pw'', Submit] (init_world ''/login''))"
    by (rule reach_run [OF reach.init])
  have p: "login_page (run [Input FEmail ''a@b.co'', Input FPassword ''pw'', Submit] (init_world ''/login''))
      = Some (0, login_init\<lparr>email := ''a@b.co'', password := ''pw'', loading := True\<rparr>)"
    by (simp add: run_eval_defs)
  show ?thesis using r p loading_iff_in_flight [OF r p] by simp
qed

text \<open>C6. The submit lock: while a request of the mounted Login instance is in flight, a
  submit is rejected locally. The world is unchanged, and in particular no second
  request is sent.\<close>

theorem submit_lock:
  assumes "reach w" "login_page w = Some (i, st)"
    and "\<exists>t \<in> set (tasks w). await_owner (task_await t) = Some i"
  shows "step Submit w = w"
proof -
  have "loading st"
    using inv_loading_iff [OF reach_world_inv [OF assms(1)] assms(2)] assms(3) by simp
  with assms(2) show ?thesis by (simp add: submit_enabled_def)
qed

theorem submit_lock_witness:
  "reach (run [Input FEmail ''a@b.co'', Input FPassword ''pw'', Submit] (init_world ''/login''))
   \<and> login_page (run [Input FEmail ''a@b.co'', Input FPassword ''pw'', Submit] (init_world ''/login'')) = Some (0, login_init\<lparr>email := ''a@b.co'', password := ''pw'', loading := True\<rparr>)
   \<and> (\<exists>t \<in> set (tasks (run [Input FEmail ''a@b.co'', Input FPassword ''pw'', Submit] (init_world ''/login''))). await_owner (task_await t) = Some 0)
   \<and> step Submit (run [Input FEmail ''a@b.co'', Input FPassword ''pw'', Submit] (init_world ''/login'')) = run [Input FEmail ''a@b.co'', Input FPassword ''pw'', Submit] (init_world ''/login'')"
proof -
  have r: "reach (run [Input FEmail ''a@b.co'', Input FPassword ''pw'', Submit] (init_world ''/login''))"
    by (rule reach_run [OF reach.init])
  have p: "login_page (run [Input FEmail ''a@b.co'', Input FPassword ''pw'', Submit] (init_world ''/login''))
      = Some (0, login_init\<lparr>email := ''a@b.co'', password := ''pw'', loading := True\<rparr>)"
    by (simp add: run_eval_defs)
  have t: "\<exists>t \<in> set (tasks (run [Input FEmail ''a@b.co'', Input FPassword ''pw'', Submit] (init_world ''/login''))). await_owner (task_await t) = Some 0"
    by (simp add: run_eval_defs)
  show ?thesis using r p t submit_lock [OF r p t] by simp
qed

text \<open>C7. Every request the client has sent carries \<open>withCredentials\<close>, so the
  session cookie travels with it.\<close>

theorem credentials_on_every_request:
  assumes "reach w" "q \<in> set (sent w)"
  shows "with_credentials q"
  using reach_world_inv [OF assms(1)] assms(2)
  by (auto simp: world_inv_def inv_simps list_all_iff)

theorem credentials_on_every_request_witness:
  "reach (run [Input FEmail ''a@b.co'', Input FPassword ''pw'', Submit] (init_world ''/login''))
   \<and> login_request ''a@b.co'' ''pw'' \<in> set (sent (run [Input FEmail ''a@b.co'', Input FPassword ''pw'', Submit] (init_world ''/login'')))
   \<and> with_credentials (login_request ''a@b.co'' ''pw'')"
proof -
  have r: "reach (run [Input FEmail ''a@b.co'', Input FPassword ''pw'', Submit] (init_world ''/login''))"
    by (rule reach_run [OF reach.init])
  have q: "login_request ''a@b.co'' ''pw'' \<in> set (sent (run [Input FEmail ''a@b.co'', Input FPassword ''pw'', Submit] (init_world ''/login'')))"
    by (simp add: run_eval_defs)
  show ?thesis using r q credentials_on_every_request [OF r q] by simp
qed

end
