(* ===== verification/Auth_Flows.thy ===== *)
theory Auth_Flows
  imports World_Invariant
begin

text \<open>
  The Login page's flows end to end, in reachable worlds: a submit, the answer to the
  posted request, and, where the handler awaits \<open>getUserData\<close>, the answer to the
  profile request. Each theorem gives the whole resulting world, so it also says what
  does not change (the store on failure, the other in-flight requests, the location).
  The helper lemmas evaluate "answer the request just sent" once for all flows. The
  last two sections look at the store between two answers, and relate the page to the
  spec's orchestrator machine: a submit from idle (Idle to Submitting, or a local
  validation stop) and every answer to a Login request by the move it makes.
\<close>

section \<open>Evaluating a submit and its answers\<close>

lemma inv_page_location:
  "world_inv w \<Longrightarrow> login_page w = Some (i, st) \<Longrightarrow> location w = ''/login''"
  by (auto simp: world_inv_def inv_simps route_of_login_iff)

lemma inv_ids_fresh: "world_inv w \<Longrightarrow> \<forall>t \<in> set (tasks w). task_id t < next_req w"
  by (simp add: world_inv_def inv_simps)

lemma resolve_sent:
  assumes "\<forall>t \<in> set (tasks w). task_id t < next_req w" "n = next_req w"
  shows "step (Resolve n r) (send q k w) =
     apply_effects (resume k r) (w\<lparr>next_req := Suc (next_req w), sent := sent w @ [q]\<rparr>)"
proof -
  let ?t = "\<lparr>task_id = next_req w, task_req = q, task_await = k\<rparr>"
  from assms have "find_task (next_req w) (tasks w @ [?t]) = Some ?t"
    by (intro find_task_append_fresh) auto
  moreover from assms have "?t \<notin> set (tasks w)" by auto
  then have "remove1 ?t (tasks w @ [?t]) = tasks w" by (simp add: remove1_append)
  ultimately show ?thesis using assms(2) by (simp add: send_def)
qed

text \<open>A submit followed by the answer to the request it sent.\<close>

lemma run_submit_answer:
  assumes "reach w" "login_page w = Some (i, st)" "submit_enabled st"
  shows "run [Submit, Resolve (next_req w) r] w =
     apply_effects (resume (submit_await i st) r)
       (w\<lparr>login_page := Some (i, st\<lparr>loading := True\<rparr>), next_req := Suc (next_req w),
          sent := sent w @ [submit_request st]\<rparr>)"
proof -
  let ?w1 = "w\<lparr>login_page := Some (i, st\<lparr>loading := True\<rparr>)\<rparr>"
  have fresh: "\<forall>t \<in> set (tasks ?w1). task_id t < next_req ?w1"
    using inv_ids_fresh [OF reach_world_inv [OF assms(1)]] by simp
  have "step Submit w = send (submit_request st) (submit_await i st) ?w1"
    using assms(2,3) by (simp add: onSubmit_start_eq set_loading_def)
  then have "run [Submit, Resolve (next_req w) r] w =
      step (Resolve (next_req w) r) (send (submit_request st) (submit_await i st) ?w1)"
    by simp
  also have "\<dots> = apply_effects (resume (submit_await i st) r)
      (?w1\<lparr>next_req := Suc (next_req ?w1), sent := sent ?w1 @ [submit_request st]\<rparr>)"
    by (rule resolve_sent [OF fresh]) simp
  finally show ?thesis by simp
qed


section \<open>Login\<close>

text \<open>C8. Login with a valid form: when \<open>/login\<close> answers 200 and \<open>/profile\<close> answers
  200 with \<open>prof\<close>, the store is logged in with exactly \<open>prof\<close>, the app navigates to
  \<open>/\<close> (unmounting the Login page), a success toast is shown, and the two requests are
  the only ones sent.\<close>

theorem login_success:
  assumes "reach w" "login_page w = Some (i, st)" "submit_enabled st" "\<not> isCreateAccount st"
  shows "run [Submit, Resolve (next_req w) (Response 200 d0),
              Resolve (Suc (next_req w)) (Response 200 prof)] w =
     w\<lparr>ctx := \<lparr>isLoggedIn = True, userData = prof\<rparr>, location := ''/'', login_page := None,
       next_req := next_req w + 2,
       toasts := toasts w @ [(ToastSuccess, JStr ''Login successful'')],
       sent := sent w @ [login_request (email st) (password st), profile_request]\<rparr>"
proof -
  have inv: "world_inv w" using assms(1) by (rule reach_world_inv)
  let ?q = "login_request (email st) (password st)"
  let ?w2 = "w\<lparr>login_page := Some (i, st\<lparr>loading := True\<rparr>), next_req := Suc (next_req w),
     sent := sent w @ [?q], ctx := (ctx w)\<lparr>isLoggedIn := True\<rparr>\<rparr>"
  have "run [Submit, Resolve (next_req w) (Response 200 d0)] w =
      send profile_request (AwaitProfile (FromLogin i)) ?w2"
    using run_submit_answer [OF assms(1-3)] assms(4)
    by (simp add: submit_await_def submit_request_def login_resume_def getUserData_call_def
        validate_status_def)
  then have "run [Submit, Resolve (next_req w) (Response 200 d0),
              Resolve (Suc (next_req w)) (Response 200 prof)] w =
      step (Resolve (Suc (next_req w)) (Response 200 prof))
        (send profile_request (AwaitProfile (FromLogin i)) ?w2)"
    using run_append [of "[Submit, Resolve (next_req w) (Response 200 d0)]"] by simp
  also have "\<dots> = apply_effects (login_after_profile i (Response 200 prof))
      (?w2\<lparr>next_req := Suc (next_req ?w2), sent := sent ?w2 @ [profile_request]\<rparr>)"
    using inv_ids_fresh [OF inv] by (subst resolve_sent) auto
  also have "\<dots> = w\<lparr>ctx := \<lparr>isLoggedIn = True, userData = prof\<rparr>, location := ''/'',
       login_page := None, next_req := next_req w + 2,
       toasts := toasts w @ [(ToastSuccess, JStr ''Login successful'')],
       sent := sent w @ [?q, profile_request]\<rparr>"
    using inv_page_location [OF inv assms(2)]
    by (simp add: login_after_profile_def getUserData_resume_def navigate_def set_loading_def
        validate_status_def)
  finally show ?thesis .
qed


theorem login_success_witness:
  "reach (run [Input FEmail ''a@b.co'', Input FPassword ''pw''] (init_world ''/login'')) \<and> login_page (run [Input FEmail ''a@b.co'', Input FPassword ''pw''] (init_world ''/login'')) = Some (0, login_init\<lparr>email := ''a@b.co'', password := ''pw''\<rparr>)
   \<and> submit_enabled (login_init\<lparr>email := ''a@b.co'', password := ''pw''\<rparr>) \<and> \<not> isCreateAccount (login_init\<lparr>email := ''a@b.co'', password := ''pw''\<rparr>)
   \<and> run [Submit, Resolve (next_req (run [Input FEmail ''a@b.co'', Input FPassword ''pw''] (init_world ''/login''))) (Response 200 JNull),
        Resolve (Suc (next_req (run [Input FEmail ''a@b.co'', Input FPassword ''pw''] (init_world ''/login'')))) (Response 200 (JObj [(''name'', JStr ''Ann'')]))] (run [Input FEmail ''a@b.co'', Input FPassword ''pw''] (init_world ''/login''))
     = (run [Input FEmail ''a@b.co'', Input FPassword ''pw''] (init_world ''/login''))\<lparr>ctx := \<lparr>isLoggedIn = True, userData = JObj [(''name'', JStr ''Ann'')]\<rparr>,
         location := ''/'', login_page := None, next_req := next_req (run [Input FEmail ''a@b.co'', Input FPassword ''pw''] (init_world ''/login'')) + 2,
         toasts := toasts (run [Input FEmail ''a@b.co'', Input FPassword ''pw''] (init_world ''/login'')) @ [(ToastSuccess, JStr ''Login successful'')],
         sent := sent (run [Input FEmail ''a@b.co'', Input FPassword ''pw''] (init_world ''/login'')) @ [login_request (email (login_init\<lparr>email := ''a@b.co'', password := ''pw''\<rparr>)) (password (login_init\<lparr>email := ''a@b.co'', password := ''pw''\<rparr>)), profile_request]\<rparr>"
proof -
  have r: "reach (run [Input FEmail ''a@b.co'', Input FPassword ''pw''] (init_world ''/login''))" by (rule reach_run [OF reach.init])
  have p: "login_page (run [Input FEmail ''a@b.co'', Input FPassword ''pw''] (init_world ''/login'')) = Some (0, login_init\<lparr>email := ''a@b.co'', password := ''pw''\<rparr>)" by (simp add: run_eval_defs)
  have e: "submit_enabled (login_init\<lparr>email := ''a@b.co'', password := ''pw''\<rparr>)" by (simp add: run_eval_defs)
  have m: "\<not> isCreateAccount (login_init\<lparr>email := ''a@b.co'', password := ''pw''\<rparr>)" by (simp add: login_init_def)
  show ?thesis using r p e m login_success [OF r p e m] by simp
qed

section \<open>Registration\<close>

text \<open>C9. Registration with a valid form: when \<open>/register\<close> answers 201 and
  \<open>/profile\<close> answers 200 with \<open>prof\<close>, the store is logged in with exactly \<open>prof\<close>,
  the app navigates to \<open>/\<close> and a success toast is shown.\<close>

theorem register_success:
  assumes "reach w" "login_page w = Some (i, st)" "submit_enabled st" "isCreateAccount st"
  shows "run [Submit, Resolve (next_req w) (Response 201 d0),
              Resolve (Suc (next_req w)) (Response 200 prof)] w =
     w\<lparr>ctx := \<lparr>isLoggedIn = True, userData = prof\<rparr>, location := ''/'', login_page := None,
       next_req := next_req w + 2,
       toasts := toasts w @ [(ToastSuccess, JStr ''Account created successfully.'')],
       sent := sent w @ [register_request (name st) (email st) (password st), profile_request]\<rparr>"
proof -
  have inv: "world_inv w" using assms(1) by (rule reach_world_inv)
  let ?q = "register_request (name st) (email st) (password st)"
  let ?w2 = "w\<lparr>login_page := Some (i, st\<lparr>loading := True\<rparr>), next_req := Suc (next_req w),
     sent := sent w @ [?q]\<rparr>"
  have "run [Submit, Resolve (next_req w) (Response 201 d0)] w =
      send profile_request (AwaitProfile (FromRegister i)) ?w2"
    using run_submit_answer [OF assms(1-3)] assms(4)
    by (simp add: submit_await_def submit_request_def register_resume_def getUserData_call_def
        validate_status_def)
  then have "run [Submit, Resolve (next_req w) (Response 201 d0),
              Resolve (Suc (next_req w)) (Response 200 prof)] w =
      step (Resolve (Suc (next_req w)) (Response 200 prof))
        (send profile_request (AwaitProfile (FromRegister i)) ?w2)"
    using run_append [of "[Submit, Resolve (next_req w) (Response 201 d0)]"] by simp
  also have "\<dots> = apply_effects (register_after_profile i (Response 200 prof))
      (?w2\<lparr>next_req := Suc (next_req ?w2), sent := sent ?w2 @ [profile_request]\<rparr>)"
    using inv_ids_fresh [OF inv] by (subst resolve_sent) auto
  also have "\<dots> = w\<lparr>ctx := \<lparr>isLoggedIn = True, userData = prof\<rparr>, location := ''/'',
       login_page := None, next_req := next_req w + 2,
       toasts := toasts w @ [(ToastSuccess, JStr ''Account created successfully.'')],
       sent := sent w @ [?q, profile_request]\<rparr>"
    using inv_page_location [OF inv assms(2)]
    by (simp add: register_after_profile_def getUserData_resume_def navigate_def
        set_loading_def validate_status_def)
  finally show ?thesis .
qed

theorem register_success_witness:
  "reach (run [SwitchMode, Input FName ''Ann'', Input FEmail ''a@b.co'', Input FPassword ''pw''] (init_world ''/login'')) \<and> login_page (run [SwitchMode, Input FName ''Ann'', Input FEmail ''a@b.co'', Input FPassword ''pw''] (init_world ''/login'')) = Some (0, login_init\<lparr>isCreateAccount := True, name := ''Ann'', email := ''a@b.co'', password := ''pw''\<rparr>)
   \<and> submit_enabled (login_init\<lparr>isCreateAccount := True, name := ''Ann'', email := ''a@b.co'', password := ''pw''\<rparr>) \<and> isCreateAccount (login_init\<lparr>isCreateAccount := True, name := ''Ann'', email := ''a@b.co'', password := ''pw''\<rparr>)
   \<and> run [Submit, Resolve (next_req (run [SwitchMode, Input FName ''Ann'', Input FEmail ''a@b.co'', Input FPassword ''pw''] (init_world ''/login''))) (Response 201 JNull),
        Resolve (Suc (next_req (run [SwitchMode, Input FName ''Ann'', Input FEmail ''a@b.co'', Input FPassword ''pw''] (init_world ''/login'')))) (Response 200 (JObj [(''name'', JStr ''Ann'')]))] (run [SwitchMode, Input FName ''Ann'', Input FEmail ''a@b.co'', Input FPassword ''pw''] (init_world ''/login''))
     = (run [SwitchMode, Input FName ''Ann'', Input FEmail ''a@b.co'', Input FPassword ''pw''] (init_world ''/login''))\<lparr>ctx := \<lparr>isLoggedIn = True, userData = JObj [(''name'', JStr ''Ann'')]\<rparr>,
         location := ''/'', login_page := None, next_req := next_req (run [SwitchMode, Input FName ''Ann'', Input FEmail ''a@b.co'', Input FPassword ''pw''] (init_world ''/login'')) + 2,
         toasts := toasts (run [SwitchMode, Input FName ''Ann'', Input FEmail ''a@b.co'', Input FPassword ''pw''] (init_world ''/login'')) @ [(ToastSuccess, JStr ''Account created successfully.'')],
         sent := sent (run [SwitchMode, Input FName ''Ann'', Input FEmail ''a@b.co'', Input FPassword ''pw''] (init_world ''/login'')) @ [register_request (name (login_init\<lparr>isCreateAccount := True, name := ''Ann'', email := ''a@b.co'', password := ''pw''\<rparr>)) (email (login_init\<lparr>isCreateAccount := True, name := ''Ann'', email := ''a@b.co'', password := ''pw''\<rparr>)) (password (login_init\<lparr>isCreateAccount := True, name := ''Ann'', email := ''a@b.co'', password := ''pw''\<rparr>)),
           profile_request]\<rparr>"
proof -
  have r: "reach (run [SwitchMode, Input FName ''Ann'', Input FEmail ''a@b.co'', Input FPassword ''pw''] (init_world ''/login''))" by (rule reach_run [OF reach.init])
  have p: "login_page (run [SwitchMode, Input FName ''Ann'', Input FEmail ''a@b.co'', Input FPassword ''pw''] (init_world ''/login'')) = Some (0, login_init\<lparr>isCreateAccount := True, name := ''Ann'', email := ''a@b.co'', password := ''pw''\<rparr>)" by (simp add: run_eval_defs switch_mode_def)
  have e: "submit_enabled (login_init\<lparr>isCreateAccount := True, name := ''Ann'', email := ''a@b.co'', password := ''pw''\<rparr>)" by (simp add: run_eval_defs)
  have m: "isCreateAccount (login_init\<lparr>isCreateAccount := True, name := ''Ann'', email := ''a@b.co'', password := ''pw''\<rparr>)" by (simp add: login_init_def)
  show ?thesis using r p e m register_success [OF r p e m] by simp
qed

text \<open>C10. Registration rejected by the backend (a non-2xx status whose body carries a
  non-empty \<open>message\<close>, such as "Email already registered"): the store is untouched,
  that exact message is shown, and the form is back to its pre-submit state with
  \<open>loading\<close> cleared.\<close>

theorem register_rejected_message:
  assumes "reach w" "login_page w = Some (i, st)" "submit_enabled st" "isCreateAccount st"
    and "\<not> validate_status s" "m \<noteq> []"
  shows "run [Submit, Resolve (next_req w) (Response s (JObj [(''message'', JStr m)]))] w =
     w\<lparr>login_page := Some (i, st), next_req := Suc (next_req w),
       toasts := toasts w @ [(ToastError, JStr m)],
       sent := sent w @ [register_request (name st) (email st) (password st)]\<rparr>"
  using run_submit_answer [OF assms(1-3)] assms(3-6)
  by (simp add: submit_await_def submit_request_def register_resume_def submit_failed_def
      login_error_message_def set_loading_def submit_enabled_def)

theorem register_rejected_message_witness:
  "reach (run [SwitchMode, Input FName ''Ann'', Input FEmail ''a@b.co'', Input FPassword ''pw''] (init_world ''/login'')) \<and> login_page (run [SwitchMode, Input FName ''Ann'', Input FEmail ''a@b.co'', Input FPassword ''pw''] (init_world ''/login'')) = Some (0, login_init\<lparr>isCreateAccount := True, name := ''Ann'', email := ''a@b.co'', password := ''pw''\<rparr>)
   \<and> submit_enabled (login_init\<lparr>isCreateAccount := True, name := ''Ann'', email := ''a@b.co'', password := ''pw''\<rparr>) \<and> isCreateAccount (login_init\<lparr>isCreateAccount := True, name := ''Ann'', email := ''a@b.co'', password := ''pw''\<rparr>)
   \<and> \<not> validate_status 409 \<and> ''Email already registered'' \<noteq> []
   \<and> run [Submit, Resolve (next_req (run [SwitchMode, Input FName ''Ann'', Input FEmail ''a@b.co'', Input FPassword ''pw''] (init_world ''/login'')))
         (Response 409 (JObj [(''message'', JStr ''Email already registered'')]))] (run [SwitchMode, Input FName ''Ann'', Input FEmail ''a@b.co'', Input FPassword ''pw''] (init_world ''/login''))
     = (run [SwitchMode, Input FName ''Ann'', Input FEmail ''a@b.co'', Input FPassword ''pw''] (init_world ''/login''))\<lparr>login_page := Some (0, login_init\<lparr>isCreateAccount := True, name := ''Ann'', email := ''a@b.co'', password := ''pw''\<rparr>), next_req := Suc (next_req (run [SwitchMode, Input FName ''Ann'', Input FEmail ''a@b.co'', Input FPassword ''pw''] (init_world ''/login''))),
         toasts := toasts (run [SwitchMode, Input FName ''Ann'', Input FEmail ''a@b.co'', Input FPassword ''pw''] (init_world ''/login'')) @ [(ToastError, JStr ''Email already registered'')],
         sent := sent (run [SwitchMode, Input FName ''Ann'', Input FEmail ''a@b.co'', Input FPassword ''pw''] (init_world ''/login'')) @ [register_request (name (login_init\<lparr>isCreateAccount := True, name := ''Ann'', email := ''a@b.co'', password := ''pw''\<rparr>)) (email (login_init\<lparr>isCreateAccount := True, name := ''Ann'', email := ''a@b.co'', password := ''pw''\<rparr>)) (password (login_init\<lparr>isCreateAccount := True, name := ''Ann'', email := ''a@b.co'', password := ''pw''\<rparr>))]\<rparr>"
proof -
  have r: "reach (run [SwitchMode, Input FName ''Ann'', Input FEmail ''a@b.co'', Input FPassword ''pw''] (init_world ''/login''))" by (rule reach_run [OF reach.init])
  have p: "login_page (run [SwitchMode, Input FName ''Ann'', Input FEmail ''a@b.co'', Input FPassword ''pw''] (init_world ''/login'')) = Some (0, login_init\<lparr>isCreateAccount := True, name := ''Ann'', email := ''a@b.co'', password := ''pw''\<rparr>)" by (simp add: run_eval_defs switch_mode_def)
  have e: "submit_enabled (login_init\<lparr>isCreateAccount := True, name := ''Ann'', email := ''a@b.co'', password := ''pw''\<rparr>)" by (simp add: run_eval_defs)
  have m: "isCreateAccount (login_init\<lparr>isCreateAccount := True, name := ''Ann'', email := ''a@b.co'', password := ''pw''\<rparr>)" by (simp add: login_init_def)
  have v: "\<not> validate_status 409" by (simp add: validate_status_def)
  have n: "''Email already registered'' \<noteq> []" by simp
  show ?thesis using r p e m v n register_rejected_message [OF r p e m v n] by simp
qed

section \<open>Failures without a backend message\<close>

text \<open>C11. A submit whose request fails in transport (no response) in either mode: the
  store is untouched, the fallback message "Invalid credentials" is shown, and
  \<open>loading\<close> is cleared.\<close>

theorem submit_network_failure:
  assumes "reach w" "login_page w = Some (i, st)" "submit_enabled st"
  shows "run [Submit, Resolve (next_req w) NetworkFailure] w =
     w\<lparr>login_page := Some (i, st), next_req := Suc (next_req w),
       toasts := toasts w @ [(ToastError, JStr ''Invalid credentials'')],
       sent := sent w @ [submit_request st]\<rparr>"
  using run_submit_answer [OF assms(1-3)] assms(3)
  by (simp add: submit_await_def register_resume_def login_resume_def submit_failed_def
      login_error_message_def set_loading_def submit_enabled_def)

theorem submit_network_failure_witness:
  "reach (run [Input FEmail ''a@b.co'', Input FPassword ''pw''] (init_world ''/login'')) \<and> login_page (run [Input FEmail ''a@b.co'', Input FPassword ''pw''] (init_world ''/login'')) = Some (0, login_init\<lparr>email := ''a@b.co'', password := ''pw''\<rparr>) \<and> submit_enabled (login_init\<lparr>email := ''a@b.co'', password := ''pw''\<rparr>)
   \<and> run [Submit, Resolve (next_req (run [Input FEmail ''a@b.co'', Input FPassword ''pw''] (init_world ''/login''))) NetworkFailure] (run [Input FEmail ''a@b.co'', Input FPassword ''pw''] (init_world ''/login''))
     = (run [Input FEmail ''a@b.co'', Input FPassword ''pw''] (init_world ''/login''))\<lparr>login_page := Some (0, login_init\<lparr>email := ''a@b.co'', password := ''pw''\<rparr>), next_req := Suc (next_req (run [Input FEmail ''a@b.co'', Input FPassword ''pw''] (init_world ''/login''))),
         toasts := toasts (run [Input FEmail ''a@b.co'', Input FPassword ''pw''] (init_world ''/login'')) @ [(ToastError, JStr ''Invalid credentials'')],
         sent := sent (run [Input FEmail ''a@b.co'', Input FPassword ''pw''] (init_world ''/login'')) @ [submit_request (login_init\<lparr>email := ''a@b.co'', password := ''pw''\<rparr>)]\<rparr>"
proof -
  have r: "reach (run [Input FEmail ''a@b.co'', Input FPassword ''pw''] (init_world ''/login''))" by (rule reach_run [OF reach.init])
  have p: "login_page (run [Input FEmail ''a@b.co'', Input FPassword ''pw''] (init_world ''/login'')) = Some (0, login_init\<lparr>email := ''a@b.co'', password := ''pw''\<rparr>)" by (simp add: run_eval_defs)
  have e: "submit_enabled (login_init\<lparr>email := ''a@b.co'', password := ''pw''\<rparr>)" by (simp add: run_eval_defs)
  show ?thesis using r p e submit_network_failure [OF r p e] by simp
qed

text \<open>C12. A login answered with a success status other than 200 (say 204): axios
  resolves, the handler's status test fails, and only the \<open>finally\<close> block runs. The
  store is untouched, the user sees no message, and the form is ready again.\<close>

theorem login_other_success_silent:
  assumes "reach w" "login_page w = Some (i, st)" "submit_enabled st" "\<not> isCreateAccount st"
    and "validate_status s" "s \<noteq> 200"
  shows "run [Submit, Resolve (next_req w) (Response s d)] w =
     w\<lparr>login_page := Some (i, st), next_req := Suc (next_req w),
       sent := sent w @ [login_request (email st) (password st)]\<rparr>"
  using run_submit_answer [OF assms(1-3)] assms(3-6)
  by (simp add: submit_await_def submit_request_def login_resume_def set_loading_def
      submit_enabled_def)

theorem login_other_success_silent_witness:
  "reach (run [Input FEmail ''a@b.co'', Input FPassword ''pw''] (init_world ''/login'')) \<and> login_page (run [Input FEmail ''a@b.co'', Input FPassword ''pw''] (init_world ''/login'')) = Some (0, login_init\<lparr>email := ''a@b.co'', password := ''pw''\<rparr>) \<and> submit_enabled (login_init\<lparr>email := ''a@b.co'', password := ''pw''\<rparr>)
   \<and> \<not> isCreateAccount (login_init\<lparr>email := ''a@b.co'', password := ''pw''\<rparr>) \<and> validate_status 204 \<and> (204::nat) \<noteq> 200
   \<and> run [Submit, Resolve (next_req (run [Input FEmail ''a@b.co'', Input FPassword ''pw''] (init_world ''/login''))) (Response 204 JNull)] (run [Input FEmail ''a@b.co'', Input FPassword ''pw''] (init_world ''/login''))
     = (run [Input FEmail ''a@b.co'', Input FPassword ''pw''] (init_world ''/login''))\<lparr>login_page := Some (0, login_init\<lparr>email := ''a@b.co'', password := ''pw''\<rparr>), next_req := Suc (next_req (run [Input FEmail ''a@b.co'', Input FPassword ''pw''] (init_world ''/login''))),
         sent := sent (run [Input FEmail ''a@b.co'', Input FPassword ''pw''] (init_world ''/login'')) @ [login_request (email (login_init\<lparr>email := ''a@b.co'', password := ''pw''\<rparr>)) (password (login_init\<lparr>email := ''a@b.co'', password := ''pw''\<rparr>))]\<rparr>"
proof -
  have r: "reach (run [Input FEmail ''a@b.co'', Input FPassword ''pw''] (init_world ''/login''))" by (rule reach_run [OF reach.init])
  have p: "login_page (run [Input FEmail ''a@b.co'', Input FPassword ''pw''] (init_world ''/login'')) = Some (0, login_init\<lparr>email := ''a@b.co'', password := ''pw''\<rparr>)" by (simp add: run_eval_defs)
  have e: "submit_enabled (login_init\<lparr>email := ''a@b.co'', password := ''pw''\<rparr>)" by (simp add: run_eval_defs)
  have m: "\<not> isCreateAccount (login_init\<lparr>email := ''a@b.co'', password := ''pw''\<rparr>)" by (simp add: login_init_def)
  have v: "validate_status 204" by (simp add: validate_status_def)
  have n: "(204::nat) \<noteq> 200" by simp
  show ?thesis using r p e m v n login_other_success_silent [OF r p e m v n] by simp
qed

section \<open>A failed profile fetch after a login\<close>

text \<open>C18. A login accepted by \<open>/login\<close> whose \<open>/profile\<close> fetch is rejected ends
  logged in while \<open>userData\<close> keeps whatever it held before, possibly the profile of
  the previous login. The user sees both the profile error and the login success toast.
  The spec requires \<open>currentUser\<close> to be replaced by the fresh profile and never left
  stale.\<close>

theorem login_profile_rejected_keeps_old_user:
  assumes "reach w" "login_page w = Some (i, st)" "submit_enabled st" "\<not> isCreateAccount st"
    and "axios_settle r = Inl e"
  shows "run [Submit, Resolve (next_req w) (Response 200 d0), Resolve (Suc (next_req w)) r] w =
     w\<lparr>ctx := \<lparr>isLoggedIn = True, userData = userData (ctx w)\<rparr>, location := ''/'',
       login_page := None, next_req := next_req w + 2,
       toasts := toasts w @ [(ToastError, JStr ''Unable to retrieve profile''),
                             (ToastSuccess, JStr ''Login successful'')],
       sent := sent w @ [login_request (email st) (password st), profile_request]\<rparr>"
proof -
  have inv: "world_inv w" using assms(1) by (rule reach_world_inv)
  let ?q = "login_request (email st) (password st)"
  let ?w2 = "w\<lparr>login_page := Some (i, st\<lparr>loading := True\<rparr>), next_req := Suc (next_req w),
     sent := sent w @ [?q], ctx := (ctx w)\<lparr>isLoggedIn := True\<rparr>\<rparr>"
  have "run [Submit, Resolve (next_req w) (Response 200 d0)] w =
      send profile_request (AwaitProfile (FromLogin i)) ?w2"
    using run_submit_answer [OF assms(1-3)] assms(4)
    by (simp add: submit_await_def submit_request_def login_resume_def getUserData_call_def
        validate_status_def)
  then have "run [Submit, Resolve (next_req w) (Response 200 d0), Resolve (Suc (next_req w)) r] w
      = step (Resolve (Suc (next_req w)) r) (send profile_request (AwaitProfile (FromLogin i)) ?w2)"
    using run_append [of "[Submit, Resolve (next_req w) (Response 200 d0)]"] by simp
  also have "\<dots> = apply_effects (login_after_profile i r)
      (?w2\<lparr>next_req := Suc (next_req ?w2), sent := sent ?w2 @ [profile_request]\<rparr>)"
    using inv_ids_fresh [OF inv] by (subst resolve_sent) auto
  also have "\<dots> = w\<lparr>ctx := \<lparr>isLoggedIn = True, userData = userData (ctx w)\<rparr>, location := ''/'',
       login_page := None, next_req := next_req w + 2,
       toasts := toasts w @ [(ToastError, JStr ''Unable to retrieve profile''),
                             (ToastSuccess, JStr ''Login successful'')],
       sent := sent w @ [?q, profile_request]\<rparr>"
    using inv_page_location [OF inv assms(2)] assms(5)
    by (simp add: login_after_profile_def getUserData_resume_def navigate_def set_loading_def)
  finally show ?thesis .
qed

theorem login_profile_rejected_keeps_old_user_witness:
  "reach (run [Input FEmail ''a@b.co'', Input FPassword ''pw'', Submit, Resolve 1 (Response 200 JNull),
         Resolve 2 (Response 200 (JStr ''A'')), Visit ''/login'', Input FEmail ''b@b.co'',
         Input FPassword ''pw''] (init_world ''/login'')) \<and> login_page (run [Input FEmail ''a@b.co'', Input FPassword ''pw'', Submit, Resolve 1 (Response 200 JNull),
         Resolve 2 (Response 200 (JStr ''A'')), Visit ''/login'', Input FEmail ''b@b.co'',
         Input FPassword ''pw''] (init_world ''/login'')) = Some (1, login_init\<lparr>email := ''b@b.co'', password := ''pw''\<rparr>)
   \<and> submit_enabled (login_init\<lparr>email := ''b@b.co'', password := ''pw''\<rparr>) \<and> \<not> isCreateAccount (login_init\<lparr>email := ''b@b.co'', password := ''pw''\<rparr>)
   \<and> axios_settle NetworkFailure = Inl NetworkError
   \<and> userData (ctx (run [Input FEmail ''a@b.co'', Input FPassword ''pw'', Submit, Resolve 1 (Response 200 JNull),
         Resolve 2 (Response 200 (JStr ''A'')), Visit ''/login'', Input FEmail ''b@b.co'',
         Input FPassword ''pw''] (init_world ''/login''))) = JStr ''A''
   \<and> ctx (run [Submit, Resolve (next_req (run [Input FEmail ''a@b.co'', Input FPassword ''pw'', Submit, Resolve 1 (Response 200 JNull),
         Resolve 2 (Response 200 (JStr ''A'')), Visit ''/login'', Input FEmail ''b@b.co'',
         Input FPassword ''pw''] (init_world ''/login''))) (Response 200 JNull),
            Resolve (Suc (next_req (run [Input FEmail ''a@b.co'', Input FPassword ''pw'', Submit, Resolve 1 (Response 200 JNull),
         Resolve 2 (Response 200 (JStr ''A'')), Visit ''/login'', Input FEmail ''b@b.co'',
         Input FPassword ''pw''] (init_world ''/login'')))) NetworkFailure] (run [Input FEmail ''a@b.co'', Input FPassword ''pw'', Submit, Resolve 1 (Response 200 JNull),
         Resolve 2 (Response 200 (JStr ''A'')), Visit ''/login'', Input FEmail ''b@b.co'',
         Input FPassword ''pw''] (init_world ''/login'')))
       = \<lparr>isLoggedIn = True, userData = JStr ''A''\<rparr>"
proof -
  define wa where "wa = run [Input FEmail ''a@b.co'', Input FPassword ''pw'', Submit, Resolve 1 (Response 200 JNull),
         Resolve 2 (Response 200 (JStr ''A'')), Visit ''/login'', Input FEmail ''b@b.co'',
         Input FPassword ''pw''] (init_world ''/login'')"
  have r: "reach wa" unfolding wa_def by (rule reach_run [OF reach.init])
  have p: "login_page wa = Some (1, login_init\<lparr>email := ''b@b.co'', password := ''pw''\<rparr>)"
    unfolding wa_def by (simp add: run_eval_defs route_of_def)
  have e: "submit_enabled (login_init\<lparr>email := ''b@b.co'', password := ''pw''\<rparr>)" by (simp add: run_eval_defs)
  have m: "\<not> isCreateAccount (login_init\<lparr>email := ''b@b.co'', password := ''pw''\<rparr>)" by (simp add: login_init_def)
  have n: "axios_settle NetworkFailure = Inl NetworkError" by simp
  have u: "userData (ctx wa) = JStr ''A''"
    unfolding wa_def by (simp add: run_eval_defs route_of_def)
  have "ctx (run [Submit, Resolve (next_req wa) (Response 200 JNull),
            Resolve (Suc (next_req wa)) NetworkFailure] wa)
      = ctx (wa\<lparr>ctx := \<lparr>isLoggedIn = True, userData = userData (ctx wa)\<rparr>, location := ''/'',
       login_page := None, next_req := next_req wa + 2,
       toasts := toasts wa @ [(ToastError, JStr ''Unable to retrieve profile''),
                             (ToastSuccess, JStr ''Login successful'')],
       sent := sent wa @ [login_request (email (login_init\<lparr>email := ''b@b.co'', password := ''pw''\<rparr>)) (password (login_init\<lparr>email := ''b@b.co'', password := ''pw''\<rparr>)), profile_request]\<rparr>)"
    by (rule arg_cong [OF login_profile_rejected_keeps_old_user [OF r p e m n]])
  also have "\<dots> = \<lparr>isLoggedIn = True, userData = JStr ''A''\<rparr>" using u by simp
  finally have c: "ctx (run [Submit, Resolve (next_req wa) (Response 200 JNull),
            Resolve (Suc (next_req wa)) NetworkFailure] wa)
      = \<lparr>isLoggedIn = True, userData = JStr ''A''\<rparr>" .
  show ?thesis unfolding wa_def [symmetric] using r p e m n u c by blast
qed

section \<open>What readers of the store see in between\<close>

text \<open>C23. The store passes through "authenticated, user data not yet fetched" while a
  profile fetch is in flight. In every world, a positive bootstrap check and a login
  answered 200 both set \<open>isLoggedIn\<close> and send \<open>/profile\<close>, leaving
  \<open>userData\<close> as it was (\<open>null\<close> in a fresh tab, the previous user's data otherwise),
  and nothing else changes; a registration answered 201 sends \<open>/profile\<close> and
  leaves the store untouched until the profile arrives. Spec section 4.2 forbids a
  reader to observe \<open>isAuthenticated\<close> true with no (or another) current user.\<close>

theorem store_shows_login_before_profile:
  assumes "find_task n (tasks w) = Some t"
  shows "(task_await t = AwaitAuthCheck \<longrightarrow>
        step (Resolve n (Response 200 (JBool True))) w =
          send profile_request (AwaitProfile FromAuthState)
            (w\<lparr>tasks := remove1 t (tasks w), ctx := (ctx w)\<lparr>isLoggedIn := True\<rparr>\<rparr>))
   \<and> (task_await t = AwaitLogin i \<longrightarrow>
        step (Resolve n (Response 200 d)) w =
          send profile_request (AwaitProfile (FromLogin i))
            (w\<lparr>tasks := remove1 t (tasks w), ctx := (ctx w)\<lparr>isLoggedIn := True\<rparr>\<rparr>))
   \<and> (task_await t = AwaitRegister i \<longrightarrow>
        step (Resolve n (Response 201 d)) w =
          send profile_request (AwaitProfile (FromRegister i)) (w\<lparr>tasks := remove1 t (tasks w)\<rparr>))"
  using assms
  by (simp add: getAuthState_resume_def login_resume_def register_resume_def getUserData_call_def
      validate_status_def)

theorem store_shows_login_before_profile_witness:
  "let w = run [Input FEmail ''a@b.co'', Input FPassword ''pw'', Submit] (init_world ''/login'');
       t = \<lparr>task_id = 1, task_req = login_request ''a@b.co'' ''pw'', task_await = AwaitLogin 0\<rparr>
   in find_task 1 (tasks w) = Some t \<and> task_await t = AwaitLogin 0 \<and>
      step (Resolve 1 (Response 200 JNull)) w =
        send profile_request (AwaitProfile (FromLogin 0))
          (w\<lparr>tasks := remove1 t (tasks w), ctx := (ctx w)\<lparr>isLoggedIn := True\<rparr>\<rparr>) \<and>
      userData (ctx (step (Resolve 1 (Response 200 JNull)) w)) = JNull"
proof -
  define w where "w = run [Input FEmail ''a@b.co'', Input FPassword ''pw'', Submit] (init_world ''/login'')"
  define t where "t = \<lparr>task_id = 1, task_req = login_request ''a@b.co'' ''pw'', task_await = AwaitLogin 0\<rparr>"
  have f: "find_task 1 (tasks w) = Some t" unfolding w_def t_def by (simp add: run_eval_defs)
  have k: "task_await t = AwaitLogin 0" unfolding t_def by simp
  have u: "userData (ctx w) = JNull" unfolding w_def by (simp add: run_eval_defs ctx_init_def)
  have s: "step (Resolve 1 (Response 200 JNull)) w =
      send profile_request (AwaitProfile (FromLogin 0))
        (w\<lparr>tasks := remove1 t (tasks w), ctx := (ctx w)\<lparr>isLoggedIn := True\<rparr>\<rparr>)"
    using store_shows_login_before_profile [OF f, of 0 JNull] k by blast
  show ?thesis
    unfolding w_def [symmetric] t_def [symmetric] Let_def
    using f k s u by (simp add: send_def)
qed

section \<open>The Login page against the spec's orchestrator machine\<close>

text \<open>C24. Every answer to a request of the mounted Login instance realises one move of
  the spec's Login/Register machine out of Submitting (spec section 4.4), or the one
  move the spec lacks: the page stays Submitting while it awaits the profile (its
  request in flight, no toast); or Success: the page unmounts to \<open>/\<close> and the last
  toast is a success; or Failed: one error toast, the store untouched, \<open>loading\<close>
  cleared for a retry; or, only for a 2xx answer other than the expected 200/201, the
  form is released with no toast and no store change.\<close>

theorem login_answer_outcomes:
  assumes "reach w" "login_page w = Some (i, st)" "find_task n (tasks w) = Some t"
    and "await_owner (task_await t) = Some i"
  shows "let w' = step (Resolve n r) w in
     (login_page w' = Some (i, st) \<and> toasts w' = toasts w \<and>
        (\<exists>u \<in> set (tasks w'). await_owner (task_await u) = Some i))
   \<or> (login_page w' = None \<and> location w' = ''/'' \<and>
        (\<exists>ts m. toasts w' = toasts w @ ts @ [(ToastSuccess, m)]))
   \<or> (login_page w' = Some (i, st\<lparr>loading := False\<rparr>) \<and> ctx w' = ctx w \<and>
        (\<exists>m. toasts w' = toasts w @ [(ToastError, m)]))
   \<or> (login_page w' = Some (i, st\<lparr>loading := False\<rparr>) \<and> ctx w' = ctx w \<and> toasts w' = toasts w \<and>
        (\<exists>s d. r = Response s d \<and> validate_status s \<and>
           (task_await t = AwaitLogin i \<and> s \<noteq> 200 \<or> task_await t = AwaitRegister i \<and> s \<noteq> 201)))"
proof -
  have loc: "location w = ''/login''"
    by (rule inv_page_location [OF reach_world_inv [OF assms(1)] assms(2)])
  have st: "step (Resolve n r) w = apply_effects (resume (task_await t) r) (w\<lparr>tasks := remove1 t (tasks w)\<rparr>)"
    using assms(3) by simp
  consider "task_await t = AwaitLogin i" | "task_await t = AwaitRegister i"
    | "task_await t = AwaitProfile (FromLogin i)" | "task_await t = AwaitProfile (FromRegister i)"
    using assms(4) by (cases "task_await t" rule: await_owner.cases) auto
  then show ?thesis
  proof cases
    case 1
    then show ?thesis using assms(2) unfolding st
      by (cases r) (auto simp: login_resume_def submit_failed_def getUserData_call_def send_def
          set_loading_def validate_status_def Let_def)
  next
    case 2
    then show ?thesis using assms(2) unfolding st
      by (cases r) (auto simp: register_resume_def submit_failed_def getUserData_call_def send_def
          set_loading_def validate_status_def Let_def)
  next
    case 3
    then show ?thesis using assms(2) loc unfolding st
      by (cases r) (auto simp: login_after_profile_def getUserData_resume_def navigate_def
          set_loading_def validate_status_def route_of_def Let_def)
  next
    case 4
    then show ?thesis using assms(2) loc unfolding st
      by (cases r) (auto simp: register_after_profile_def getUserData_resume_def navigate_def
          set_loading_def validate_status_def route_of_def Let_def)
  qed
qed

theorem login_answer_outcomes_witness:
  "let w = run [Input FEmail ''a@b.co'', Input FPassword ''pw'', Submit] (init_world ''/login'');
       st = login_init\<lparr>email := ''a@b.co'', password := ''pw'', loading := True\<rparr>;
       t = \<lparr>task_id = 1, task_req = login_request ''a@b.co'' ''pw'', task_await = AwaitLogin 0\<rparr>
   in reach w \<and> login_page w = Some (0, st) \<and> find_task 1 (tasks w) = Some t \<and>
      await_owner (task_await t) = Some 0 \<and>
      (let w' = step (Resolve 1 NetworkFailure) w in
     (login_page w' = Some (0, st) \<and> toasts w' = toasts w \<and>
        (\<exists>u \<in> set (tasks w'). await_owner (task_await u) = Some 0))
   \<or> (login_page w' = None \<and> location w' = ''/'' \<and>
        (\<exists>ts m. toasts w' = toasts w @ ts @ [(ToastSuccess, m)]))
   \<or> (login_page w' = Some (0, st\<lparr>loading := False\<rparr>) \<and> ctx w' = ctx w \<and>
        (\<exists>m. toasts w' = toasts w @ [(ToastError, m)]))
   \<or> (login_page w' = Some (0, st\<lparr>loading := False\<rparr>) \<and> ctx w' = ctx w \<and> toasts w' = toasts w \<and>
        (\<exists>s d. NetworkFailure = Response s d \<and> validate_status s \<and>
           (task_await t = AwaitLogin 0 \<and> s \<noteq> 200 \<or> task_await t = AwaitRegister 0 \<and> s \<noteq> 201))))"
proof -
  define w where "w = run [Input FEmail ''a@b.co'', Input FPassword ''pw'', Submit] (init_world ''/login'')"
  define st where "st = login_init\<lparr>email := ''a@b.co'', password := ''pw'', loading := True\<rparr>"
  define t where "t = \<lparr>task_id = 1, task_req = login_request ''a@b.co'' ''pw'', task_await = AwaitLogin 0\<rparr>"
  have r: "reach w" unfolding w_def by (rule reach_run [OF reach.init])
  have p: "login_page w = Some (0, st)" unfolding w_def st_def by (simp add: run_eval_defs)
  have f: "find_task 1 (tasks w) = Some t" unfolding w_def t_def by (simp add: run_eval_defs)
  have own: "await_owner (task_await t) = Some 0" unfolding t_def by simp
  show ?thesis
    using r p f own login_answer_outcomes [OF r p f own, of NetworkFailure]
    unfolding w_def [symmetric] st_def [symmetric] t_def [symmetric] Let_def
    by (simp only: simp_thms)
qed

text \<open>C26. The Login page's side of Idle \<open>\<rightarrow>\<close> Submitting (spec section 4.4): a submit on
  an idle form whose fields pass the constraints (name in registration mode only, a
  syntactically valid e-mail, a password) posts exactly the request of the current mode,
  awaits it at the mode's \<open>await\<close> point and sets \<open>loading\<close>; a submit on an invalid
  form is stopped by the browser (the spec's \<open>ValidationError\<close>, resolved locally):
  nothing is sent and the form stays idle. The store and the toasts are untouched.\<close>

theorem submit_from_idle:
  assumes "login_page w = Some (i, st)" "\<not> loading st"
  shows "sent (step Submit w) = sent w @ (if form_valid st then [submit_request st] else [])
     \<and> login_page (step Submit w) = Some (i, st\<lparr>loading := form_valid st\<rparr>)
     \<and> map task_await (drop (length (tasks w)) (tasks (step Submit w)))
         = (if form_valid st then [submit_await i st] else [])
     \<and> ctx (step Submit w) = ctx w \<and> toasts (step Submit w) = toasts w"
  using assms
  by (simp add: submit_enabled_def onSubmit_start_def submit_request_def submit_await_def
      set_loading_def send_def)

theorem submit_from_idle_witness:
  "login_page (run [Input FEmail ''a@b.co'', Input FPassword ''pw''] (init_world ''/login''))
     = Some (0, login_init\<lparr>email := ''a@b.co'', password := ''pw''\<rparr>)
   \<and> \<not> loading (login_init\<lparr>email := ''a@b.co'', password := ''pw''\<rparr>)
   \<and> sent (step Submit (run [Input FEmail ''a@b.co'', Input FPassword ''pw''] (init_world ''/login'')))
       = sent (run [Input FEmail ''a@b.co'', Input FPassword ''pw''] (init_world ''/login''))
         @ (if form_valid (login_init\<lparr>email := ''a@b.co'', password := ''pw''\<rparr>)
            then [submit_request (login_init\<lparr>email := ''a@b.co'', password := ''pw''\<rparr>)] else [])
   \<and> form_valid (login_init\<lparr>email := ''a@b.co'', password := ''pw''\<rparr>)"
proof -
  define w where "w = run [Input FEmail ''a@b.co'', Input FPassword ''pw''] (init_world ''/login'')"
  define st where "st = login_init\<lparr>email := ''a@b.co'', password := ''pw''\<rparr>"
  have p: "login_page w = Some (0, st)" unfolding w_def st_def by (simp add: run_eval_defs)
  have l: "\<not> loading st" unfolding st_def by (simp add: login_init_def)
  have v: "form_valid st" unfolding st_def by (simp add: run_eval_defs)
  show ?thesis
    using p l v submit_from_idle [OF p l] unfolding w_def [symmetric] st_def [symmetric]
    by (simp only: simp_thms)
qed

end
