(* ===== verification/Answer_Drain.thy ===== *)
theory Answer_Drain
  imports Await_Chains
begin

text \<open>
  Answering every request in flight, oldest first, with the answers an environment
  chooses (\<open>ans n\<close> answers request \<open>n\<close>). The recursion ends because each answer lowers
  the weight of the in-flight requests (\<open>Await_Chains\<close>).
\<close>

function drain_events :: "(nat \<Rightarrow> reply) \<Rightarrow> world \<Rightarrow> event list" where
  "drain_events ans w =
     (case tasks w of
        [] \<Rightarrow> []
      | t # _ \<Rightarrow>
          Resolve (task_id t) (ans (task_id t)) #
          drain_events ans (step (Resolve (task_id t) (ans (task_id t))) w))"
  by pat_completeness auto
termination
proof (relation "measure (\<lambda>(ans, w). pending_weight w)")
  show "wf (measure (\<lambda>(ans, w). pending_weight w))" by simp
next
  fix ans and w :: world and t ts
  assume "tasks w = t # ts"
  then have "pending_weight (step (Resolve (task_id t) (ans (task_id t))) w) < pending_weight w"
    by (rule answer_head_decreases)
  then show "((ans, step (Resolve (task_id t) (ans (task_id t))) w), ans, w)
      \<in> measure (\<lambda>(ans, w). pending_weight w)"
    by simp
qed

declare drain_events.simps [simp del]

lemma drain_events_empties: "tasks (run (drain_events ans w) w) = []"
proof (induction ans w rule: drain_events.induct)
  case (1 ans w)
  show ?case
  proof (cases "tasks w")
    case Nil
    then show ?thesis by (simp add: drain_events.simps)
  next
    case (Cons t ts)
    with "1.IH" show ?thesis by (simp add: drain_events.simps [of ans w])
  qed
qed

lemma drain_events_length: "length (drain_events ans w) \<le> pending_weight w"
proof (induction ans w rule: drain_events.induct)
  case (1 ans w)
  show ?case
  proof (cases "tasks w")
    case Nil
    then show ?thesis by (simp add: drain_events.simps)
  next
    case (Cons t ts)
    then have "pending_weight (step (Resolve (task_id t) (ans (task_id t))) w) < pending_weight w"
      by (rule answer_head_decreases)
    with Cons "1.IH" show ?thesis by (simp add: drain_events.simps [of ans w])
  qed
qed

lemma await_weight_le: "await_weight k \<le> 2"
  by (cases k) simp_all

lemma pending_weight_le: "pending_weight w \<le> 2 * length (tasks w)"
proof -
  have "sum_list (map (\<lambda>t. await_weight (task_await t)) ts) \<le> 2 * length ts"
    for ts :: "task list"
  proof (induction ts)
    case Nil
    show ?case by simp
  next
    case (Cons t ts)
    have "await_weight (task_await t) \<le> 2" by (rule await_weight_le)
    with Cons.IH show ?case by simp
  qed
  then show ?thesis by (simp add: pending_weight_def)
qed

text \<open>C16. Every await chain of the program ends. From any world, whatever the backend
  answers, answering the requests in flight oldest first (\<open>drain_events\<close>, a list of
  \<open>Resolve\<close> events) leaves nothing in flight, after at most twice as many answers as
  there were requests in flight.\<close>

theorem await_chains_end:
  "tasks (run (drain_events ans w) w) = [] \<and> length (drain_events ans w) \<le> 2 * length (tasks w)"
  using drain_events_empties [of ans w] drain_events_length [of ans w] pending_weight_le [of w]
  by simp

end
