(* ===== verification/Request_Contract.thy ===== *)
theory Request_Contract
  imports Event_Loop
begin

text \<open>
  The backend's HTTP contract (spec section 6) for the four operations this client
  issues, and the check that the requests it sends keep to it. A row fixes the method,
  the path, and the shape of the body: none for the two GETs, an object of string
  fields with exactly the listed keys for the two POSTs. \<open>decode_credentials\<close> reads a
  body the way the backend reads the \<open>Credentials\<close> of spec section 3 (\<open>email\<close>,
  \<open>password\<close>, and \<open>name\<close> when present); the round trip shows that the Login page's
  request carries exactly the values the user entered. Every request of a reachable
  world is the bootstrap's check, a profile fetch, or the request of a Login form that
  passed the browser's validation, so the credentials the backend receives are
  validated ones.
\<close>

datatype backend_op = CheckAuthenticated | FetchProfile | LoginOp | RegisterOp

datatype body_shape = NoBody | StringFields "string list" | OtherBody

fun op_method :: "backend_op \<Rightarrow> http_method" where
  "op_method CheckAuthenticated = GET"
| "op_method FetchProfile = GET"
| "op_method LoginOp = POST"
| "op_method RegisterOp = POST"

fun op_path :: "backend_op \<Rightarrow> string" where
  "op_path CheckAuthenticated = ''/is-authenticated''"
| "op_path FetchProfile = ''/profile''"
| "op_path LoginOp = ''/login''"
| "op_path RegisterOp = ''/register''"

fun op_body :: "backend_op \<Rightarrow> body_shape" where
  "op_body CheckAuthenticated = NoBody"
| "op_body FetchProfile = NoBody"
| "op_body LoginOp = StringFields [''email'', ''password'']"
| "op_body RegisterOp = StringFields [''name'', ''email'', ''password'']"

fun is_jstr :: "json \<Rightarrow> bool" where
  "is_jstr (JStr _) = True"
| "is_jstr _ = False"

fun shape_of :: "json option \<Rightarrow> body_shape" where
  "shape_of None = NoBody"
| "shape_of (Some (JObj kvs)) =
     (if list_all (is_jstr \<circ> snd) kvs then StringFields (map fst kvs) else OtherBody)"
| "shape_of (Some _) = OtherBody"

definition matches_op :: "request \<Rightarrow> backend_op \<Rightarrow> bool" where
  "matches_op q op \<longleftrightarrow>
     req_method q = op_method op \<and> endpoint q = op_path op \<and> shape_of (req_body q) = op_body op"

definition conforms :: "request \<Rightarrow> bool" where
  "conforms q \<longleftrightarrow> list_ex (matches_op q) [CheckAuthenticated, FetchProfile, LoginOp, RegisterOp]"

text \<open>The backend's reading of a credentials body: \<open>None\<close> when \<open>email\<close> or
  \<open>password\<close> is missing or not a string.\<close>

fun json_string :: "js_value \<Rightarrow> string option" where
  "json_string (Some (JStr s)) = Some s"
| "json_string _ = None"

definition decode_credentials :: "json option \<Rightarrow> (string option \<times> string \<times> string) option" where
  "decode_credentials b =
     (case (json_string (js_opt_member b ''email''), json_string (js_opt_member b ''password'')) of
        (Some e, Some p) \<Rightarrow> Some (json_string (js_opt_member b ''name''), e, p)
      | _ \<Rightarrow> None)"

section \<open>Every fragment sends conforming requests\<close>

lemma sent_apply_effect: "sent (apply_effect e w) = sent w @ map fst (sends [e])"
  by (cases e) (simp_all add: navigate_def set_loading_def send_def split: option.splits)

lemma sent_apply_effects: "sent (apply_effects es w) = sent w @ map fst (sends es)"
proof (induction es arbitrary: w)
  case Nil
  then show ?case by simp
next
  case (Cons e es)
  have "sends (e # es) = sends [e] @ sends es"
    using sends_append [of "[e]" es] by simp
  with Cons sent_apply_effect [of e w] show ?case by simp
qed

lemma conforms_requests:
  "conforms is_authenticated_request" "conforms profile_request"
  "conforms (register_request n e p)" "conforms (login_request e p)"
  by (simp_all add: conforms_def matches_op_def is_authenticated_request_def
      profile_request_def register_request_def login_request_def)

lemma resume_conforms: "list_all conforms (map fst (sends (resume k r)))"
proof (cases k)
  case (AwaitProfile c)
  then show ?thesis
    by (cases c) (simp_all add: getUserData_resume_def register_after_profile_def
        login_after_profile_def split: sum.split)
qed (simp_all add: getAuthState_resume_def register_resume_def login_resume_def
     submit_failed_def getUserData_call_def conforms_requests split: sum.split)

lemma onSubmit_conforms: "list_all conforms (map fst (sends (onSubmit_start i st)))"
  by (simp add: onSubmit_start_def conforms_requests)

lemma step_sent_conforms:
  assumes "list_all conforms (sent w)"
  shows "list_all conforms (sent (step e w))"
proof (cases e)
  case (Resolve n r)
  with assms resume_conforms show ?thesis
    by (auto simp: sent_apply_effects split: option.split)
next
  case Submit
  with assms onSubmit_conforms show ?thesis
    by (auto simp: sent_apply_effects split: option.split)
next
  case (FollowLink p)
  with assms show ?thesis by (simp add: navigate_def split: option.split)
next
  case (Visit p)
  with assms show ?thesis by (simp add: navigate_def)
qed (use assms in \<open>auto split: option.split\<close>)

lemma reach_sent_conforms: "reach w \<Longrightarrow> list_all conforms (sent w)"
proof (induction rule: reach.induct)
  case (init p)
  show ?case
    by (simp add: init_world_def world0_def getAuthState_start_def send_def conforms_requests)
next
  case (step w e)
  from step.IH show ?case by (rule step_sent_conforms)
qed

lemma resume_sends_profile: "list_all (\<lambda>q. q = profile_request) (map fst (sends (resume k r)))"
proof (cases k)
  case (AwaitProfile c)
  then show ?thesis
    by (cases c) (simp_all add: getUserData_resume_def register_after_profile_def
        login_after_profile_def split: sum.split)
qed (simp_all add: getAuthState_resume_def register_resume_def login_resume_def
     submit_failed_def getUserData_call_def split: sum.split)

text \<open>The requests of a reachable world: the bootstrap's check, a profile fetch, or the
  request of a Login form that passed the browser's validation when it was submitted.\<close>

lemma reach_sent_origin:
  "reach w \<Longrightarrow> list_all (\<lambda>q. q = is_authenticated_request \<or> q = profile_request \<or>
      (\<exists>st. form_valid st \<and> q = submit_request st)) (sent w)"
proof (induction rule: reach.induct)
  case (init p)
  show ?case by (simp add: init_world_def world0_def getAuthState_start_def send_def)
next
  case (step w e)
  show ?case
  proof (cases e)
    case (Resolve n r)
    with step.IH resume_sends_profile show ?thesis
      by (auto simp: sent_apply_effects list_all_iff split: option.split)
  next
    case Submit
    with step.IH show ?thesis
      by (auto simp: onSubmit_start_eq submit_enabled_def send_def set_loading_def
          split: option.split)
  next
    case (FollowLink p)
    with step.IH show ?thesis by (simp add: navigate_def split: option.split)
  next
    case (Visit p)
    with step.IH show ?thesis by (simp add: navigate_def)
  qed (use step.IH in \<open>auto split: option.split\<close>)
qed

section \<open>The contract and the credentials\<close>

text \<open>C19. Every request the client has sent in a reachable world matches a row of the
  backend contract of spec section 6: \<open>GET /is-authenticated\<close> and \<open>GET /profile\<close>
  without a body, \<open>POST /login\<close> with string fields \<open>email\<close> and \<open>password\<close>, and
  \<open>POST /register\<close> with string fields \<open>name\<close>, \<open>email\<close> and \<open>password\<close>.\<close>

theorem sent_requests_conform:
  assumes "reach w" "q \<in> set (sent w)"
  shows "\<exists>op. matches_op q op"
  using reach_sent_conforms [OF assms(1)] assms(2)
  by (auto simp: list_all_iff conforms_def list_ex_iff)

theorem sent_requests_conform_witness:
  "reach (run [Input FEmail ''a@b.co'', Input FPassword ''pw'', Submit] (init_world ''/login''))
   \<and> login_request ''a@b.co'' ''pw'' \<in> set (sent (run [Input FEmail ''a@b.co'', Input FPassword ''pw'', Submit] (init_world ''/login'')))
   \<and> (\<exists>op. matches_op (login_request ''a@b.co'' ''pw'') op)"
proof -
  have r: "reach (run [Input FEmail ''a@b.co'', Input FPassword ''pw'', Submit] (init_world ''/login''))"
    by (rule reach_run [OF reach.init])
  have q: "login_request ''a@b.co'' ''pw'' \<in> set (sent (run [Input FEmail ''a@b.co'', Input FPassword ''pw'', Submit] (init_world ''/login'')))"
    by (simp add: run_eval_defs)
  show ?thesis using r q sent_requests_conform [OF r q] by simp
qed

text \<open>C20. Round trip of the credentials: the body of the request a submit posts, read
  back as the backend reads credentials, gives exactly the e-mail and password in the
  form, and the name in registration mode only.\<close>

theorem submit_request_credentials_roundtrip:
  "decode_credentials (req_body (submit_request st)) =
     Some (if isCreateAccount st then Some (name st) else None, email st, password st)"
  by (simp add: decode_credentials_def submit_request_def register_request_def login_request_def)

text \<open>C17. The browser's validation guards every credentials request: each \<open>/login\<close>
  or \<open>/register\<close> request the client has sent in a reachable world carries, as the
  backend reads it, an e-mail that passes the \<open>type="email"\<close> check, with a
  non-empty local part, exactly one \<open>@\<close> and a non-empty domain, a non-empty
  password, and a non-empty name exactly on \<open>/register\<close>.\<close>

theorem sent_credentials_validated:
  assumes "reach w" "q \<in> set (sent w)" "endpoint q \<in> {''/login'', ''/register''}"
  shows "\<exists>nm e p l d. decode_credentials (req_body q) = Some (nm, e, p) \<and> valid_email e \<and>
     e = l @ CHR ''@'' # d \<and> l \<noteq> [] \<and> d \<noteq> [] \<and> CHR ''@'' \<notin> set l \<and> CHR ''@'' \<notin> set d \<and>
     p \<noteq> [] \<and> (nm = None \<longleftrightarrow> endpoint q = ''/login'') \<and> nm \<noteq> Some []"
proof -
  from reach_sent_origin [OF assms(1)] assms(2,3) obtain st
    where st: "form_valid st" "q = submit_request st"
    by (auto simp: list_all_iff is_authenticated_request_def profile_request_def)
  from st(1) have v: "valid_email (email st)" "password st \<noteq> []"
    "isCreateAccount st \<Longrightarrow> name st \<noteq> []"
    by (simp_all add: form_valid_def)
  obtain l d where ld: "email st = l @ CHR ''@'' # d" "l \<noteq> []" "d \<noteq> []"
    "CHR ''@'' \<notin> set l" "CHR ''@'' \<notin> set d"
    using valid_email_single_at [OF v(1)] by blast
  have dec: "decode_credentials (req_body q) =
      Some (if isCreateAccount st then Some (name st) else None, email st, password st)"
    and ep: "endpoint q = (if isCreateAccount st then ''/register'' else ''/login'')"
    by (simp_all add: st(2) decode_credentials_def submit_request_def register_request_def
        login_request_def)
  define nm where "nm = (if isCreateAccount st then Some (name st) else None)"
  have "decode_credentials (req_body q) = Some (nm, email st, password st) \<and>
      valid_email (email st) \<and> email st = l @ CHR ''@'' # d \<and> l \<noteq> [] \<and> d \<noteq> [] \<and>
      CHR ''@'' \<notin> set l \<and> CHR ''@'' \<notin> set d \<and> password st \<noteq> [] \<and>
      (nm = None \<longleftrightarrow> endpoint q = ''/login'') \<and> nm \<noteq> Some []"
    using dec ep ld v unfolding nm_def by (cases "isCreateAccount st") auto
  then show ?thesis by blast
qed

theorem sent_credentials_validated_witness:
  "reach (run [Input FEmail ''a@b.co'', Input FPassword ''pw'', Submit] (init_world ''/login''))
   \<and> login_request ''a@b.co'' ''pw'' \<in> set (sent (run [Input FEmail ''a@b.co'', Input FPassword ''pw'', Submit] (init_world ''/login'')))
   \<and> endpoint (login_request ''a@b.co'' ''pw'') \<in> {''/login'', ''/register''}
   \<and> (\<exists>nm e p l d. decode_credentials (req_body (login_request ''a@b.co'' ''pw'')) = Some (nm, e, p) \<and> valid_email e \<and>
     e = l @ CHR ''@'' # d \<and> l \<noteq> [] \<and> d \<noteq> [] \<and> CHR ''@'' \<notin> set l \<and> CHR ''@'' \<notin> set d \<and>
     p \<noteq> [] \<and> (nm = None \<longleftrightarrow> endpoint (login_request ''a@b.co'' ''pw'') = ''/login'') \<and> nm \<noteq> Some [])"
proof -
  have r: "reach (run [Input FEmail ''a@b.co'', Input FPassword ''pw'', Submit] (init_world ''/login''))"
    by (rule reach_run [OF reach.init])
  have q: "login_request ''a@b.co'' ''pw'' \<in> set (sent (run [Input FEmail ''a@b.co'', Input FPassword ''pw'', Submit] (init_world ''/login'')))"
    by (simp add: run_eval_defs)
  have e: "endpoint (login_request ''a@b.co'' ''pw'') \<in> {''/login'', ''/register''}"
    by (simp add: login_request_def)
  show ?thesis using r q e sent_credentials_validated [OF r q e] by blast
qed

end
