(* ===== verification/Email_Grammar.thy ===== *)
theory Email_Grammar
  imports Login_Page
begin

text \<open>
  The declarative reading of the browser's \<open>type="email"\<close> constraint, as the HTML
  standard writes its valid-e-mail-address grammar: a non-empty local part of allowed
  characters, one \<open>@\<close>, and one or more domain labels joined by dots. The executable
  check \<open>valid_email\<close> of \<open>Login_Page\<close> (split at the first \<open>@\<close>, then split the
  domain at every dot) is equivalent to it. The proof rests on the round trip between
  \<open>split_on\<close> and \<open>join_on\<close>.
\<close>

text \<open>Labels joined by a separator.\<close>

fun join_on :: "char \<Rightarrow> string list \<Rightarrow> string" where
  "join_on c [] = []"
| "join_on c [l] = l"
| "join_on c (l # ls) = l @ c # join_on c ls"

definition valid_email_grammar :: "string \<Rightarrow> bool" where
  "valid_email_grammar s \<longleftrightarrow>
     (\<exists>l ls. s = l @ CHR ''@'' # join_on (CHR ''.'') ls \<and> l \<noteq> [] \<and> list_all email_local_char l \<and>
        ls \<noteq> [] \<and> list_all email_label_ok ls)"

section \<open>Splitting and joining\<close>

lemma join_on_Cons_hd: "join_on c ((x # v) # vs) = x # join_on c (v # vs)"
  by (cases vs) simp_all

lemma join_on_split_on: "join_on c (split_on c s) = s"
proof (induction s)
  case Nil
  then show ?case by simp
next
  case (Cons x s)
  obtain v vs where v: "split_on c s = v # vs"
    using split_on_nonempty [of c s] by (cases "split_on c s") simp_all
  with Cons show ?case by (simp add: join_on_Cons_hd)
qed

lemma split_on_no_sep: "c \<notin> set w \<Longrightarrow> split_on c w = [w]"
  by (induction w) auto

lemma split_on_sep: "c \<notin> set w \<Longrightarrow> split_on c (w @ c # r) = w # split_on c r"
proof (induction w)
  case Nil
  then show ?case by simp
next
  case (Cons x w)
  then show ?case by auto
qed

lemma split_on_join_on:
  assumes "ls \<noteq> []" "\<forall>l \<in> set ls. c \<notin> set l"
  shows "split_on c (join_on c ls) = ls"
  using assms
proof (induction ls rule: induct_list012)
  case 1
  then show ?case by simp
next
  case (2 x)
  then show ?case by (simp add: split_on_no_sep)
next
  case (3 x y zs)
  then show ?case by (simp add: split_on_sep)
qed

section \<open>The characters of the grammar\<close>

lemma at_not_local_char: "\<not> email_local_char (CHR ''@'')"
  by (simp add: email_local_char_def is_ascii_alnum_def)

lemma dot_not_in_label: "email_label_ok l \<Longrightarrow> CHR ''.'' \<notin> set l"
  by (auto simp: email_label_ok_def list_all_iff is_ascii_alnum_def)

lemma take_drop_at:
  assumes "CHR ''@'' \<notin> set l"
  shows "takeWhile (\<lambda>c. c \<noteq> CHR ''@'') (l @ CHR ''@'' # d) = l"
    "dropWhile (\<lambda>c. c \<noteq> CHR ''@'') (l @ CHR ''@'' # d) = CHR ''@'' # d"
  using assms by (induction l) auto

section \<open>Equivalence\<close>

text \<open>The executable \<open>type="email"\<close> check that gates the Login form's submit
  accepts exactly the strings of the HTML standard's valid-e-mail-address grammar: a
  non-empty local part of allowed characters, one \<open>@\<close>, and a non-empty list of
  valid labels joined by dots.\<close>

lemma valid_email_equiv_grammar: "valid_email s \<longleftrightarrow> valid_email_grammar s"
proof
  assume v: "valid_email s"
  let ?l = "takeWhile (\<lambda>c. c \<noteq> CHR ''@'') s"
  let ?r = "dropWhile (\<lambda>c. c \<noteq> CHR ''@'') s"
  from v obtain x d where r: "?r = x # d" and l: "?l \<noteq> []" "list_all email_local_char ?l"
    and labels: "list_all email_label_ok (split_on (CHR ''.'') d)"
    by (auto simp: valid_email_def Let_def split: list.splits)
  from r have "x = CHR ''@''"
    by (metis (mono_tags, lifting) hd_dropWhile list.discI list.sel(1))
  with r have s: "s = ?l @ CHR ''@'' # join_on (CHR ''.'') (split_on (CHR ''.'') d)"
    using takeWhile_dropWhile_id [of "\<lambda>c. c \<noteq> CHR ''@''" s] join_on_split_on [of "CHR ''.''" d]
    by simp
  show "valid_email_grammar s"
    unfolding valid_email_grammar_def
    using s l labels split_on_nonempty by blast
next
  assume "valid_email_grammar s"
  then obtain l ls where s: "s = l @ CHR ''@'' # join_on (CHR ''.'') ls"
    and l: "l \<noteq> []" "list_all email_local_char l" and ls: "ls \<noteq> []" "list_all email_label_ok ls"
    by (auto simp: valid_email_grammar_def)
  from l(2) have "CHR ''@'' \<notin> set l"
    using at_not_local_char by (auto simp: list_all_iff)
  note td = take_drop_at [OF this, of "join_on (CHR ''.'') ls"]
  from ls have "split_on (CHR ''.'') (join_on (CHR ''.'') ls) = ls"
    by (intro split_on_join_on) (auto simp: list_all_iff dot_not_in_label)
  with td l ls show "valid_email s"
    by (simp add: s valid_email_def)
qed

end
