(* ===== verification/Login_View.thy ===== *)
theory Login_View
  imports Login_Page
begin

text \<open>
  What the Login page of \<open>src/client/src/pages/Login.jsx\<close> renders from its state:
  the heading (lines 82--84), the submit button's label (line 136), and the mode switch
  below the form (lines 140--164), each a pure function of \<open>login_state\<close>. The button's
  \<open>disabled={loading}\<close> is \<open>submit_enabled\<close> of \<open>Login_Page\<close>; the label is what the
  user sees of it.
\<close>

definition heading_text :: "login_state \<Rightarrow> string" where
  "heading_text st = (if isCreateAccount st then ''Sign Up'' else ''Login'')"

definition button_label :: "login_state \<Rightarrow> string" where
  "button_label st =
     (if loading st then ''Loading...'' else if isCreateAccount st then ''Sign Up'' else ''Login'')"

text \<open>The switch: its prompt and the label of the clickable span (whose \<open>onClick\<close> is
  \<open>switch_mode\<close>).\<close>

definition switch_prompt :: "login_state \<Rightarrow> string \<times> string" where
  "switch_prompt st =
     (if isCreateAccount st then (''Already have an account? '', ''Login'')
      else (''Don't have an account? '', ''Sign Up''))"

section \<open>Lemmas\<close>

lemma button_label_loading_iff: "button_label st = ''Loading...'' \<longleftrightarrow> loading st"
  by (simp add: button_label_def)

lemma button_label_idle: "\<not> loading st \<Longrightarrow> button_label st = heading_text st"
  by (simp add: button_label_def heading_text_def)

text \<open>The span always offers the other mode, and clicking it makes the heading show
  the mode the span named.\<close>

lemma switch_offers_other_mode:
  "snd (switch_prompt st) \<noteq> heading_text st \<and> heading_text (switch_mode st) = snd (switch_prompt st)"
  by (simp add: switch_prompt_def heading_text_def switch_mode_def)

end
