(* ===== verification/Login_Liveness.thy ===== *)
theory Login_Liveness
  imports Answer_Drain World_Invariant Login_View
begin

text \<open>
  Progress of the Login page: the network answering is all it takes for the form to be
  usable again. Whatever the backend answers, once every request in flight has been
  answered (the answers of \<open>drain_events\<close> of \<open>Answer_Drain\<close>, which always run out),
  a mounted Login page is not \<open>loading\<close>: its button shows the mode's label again, and a
  submit of a valid form reaches \<open>onSubmitHandler\<close>. It combines the termination of
  the \<open>await\<close> chains with the world invariant of \<open>World_Invariant\<close>.
\<close>

text \<open>C21. Once the requests in flight of a reachable world have all been answered, with
  any answers, the mounted Login page (if any) is not loading, its button reads
  \<open>Sign Up\<close> or \<open>Login\<close> like its heading, and its submit is enabled exactly when
  the form is valid: no answer can leave the form locked.\<close>

theorem answers_release_form:
  assumes "reach w" "login_page (run (drain_events ans w) w) = Some (i, st)"
  shows "\<not> loading st \<and> button_label st = heading_text st \<and> (submit_enabled st \<longleftrightarrow> form_valid st)"
proof -
  have r: "reach (run (drain_events ans w) w)" by (rule reach_run [OF assms(1)])
  have "\<not> loading st"
    using inv_loading_iff [OF reach_world_inv [OF r] assms(2)] drain_events_empties [of ans w]
    by simp
  then show ?thesis by (simp add: button_label_idle submit_enabled_def)
qed

theorem answers_release_form_witness:
  "reach (run [Input FEmail ''a@b.co'', Input FPassword ''pw'', Submit] (init_world ''/login''))
   \<and> login_page (run (drain_events (\<lambda>_. NetworkFailure) (run [Input FEmail ''a@b.co'', Input FPassword ''pw'', Submit] (init_world ''/login'')))
       (run [Input FEmail ''a@b.co'', Input FPassword ''pw'', Submit] (init_world ''/login'')))
     = Some (0, login_init\<lparr>email := ''a@b.co'', password := ''pw''\<rparr>)
   \<and> \<not> loading (login_init\<lparr>email := ''a@b.co'', password := ''pw''\<rparr>)
   \<and> button_label (login_init\<lparr>email := ''a@b.co'', password := ''pw''\<rparr>)
       = heading_text (login_init\<lparr>email := ''a@b.co'', password := ''pw''\<rparr>)
   \<and> (submit_enabled (login_init\<lparr>email := ''a@b.co'', password := ''pw''\<rparr>)
       \<longleftrightarrow> form_valid (login_init\<lparr>email := ''a@b.co'', password := ''pw''\<rparr>))"
proof -
  define w where "w = run [Input FEmail ''a@b.co'', Input FPassword ''pw'', Submit] (init_world ''/login'')"
  have r: "reach w" unfolding w_def by (rule reach_run [OF reach.init])
  have d: "drain_events (\<lambda>_. NetworkFailure) w = [Resolve 0 NetworkFailure, Resolve 1 NetworkFailure]"
    unfolding w_def by (simp add: drain_events.simps run_eval_defs)
  have p: "login_page (run (drain_events (\<lambda>_. NetworkFailure) w) w)
      = Some (0, login_init\<lparr>email := ''a@b.co'', password := ''pw''\<rparr>)"
    unfolding d unfolding w_def by (simp add: run_eval_defs)
  show ?thesis using r p answers_release_form [OF r p] unfolding w_def [symmetric] by simp
qed

end
