(* ===== verification/Gateway_Errors.thy ===== *)
theory Gateway_Errors
  imports Request_Contract
begin

text \<open>
  The Backend Gateway Client's failure contract of spec section 4.1: every failure is
  normalised to an \<open>AuthRequestError\<close> with a reason and the backend's message, if
  any, and section 7 shows that message or a generic fallback. The code has no such
  layer: the Login page reads \<open>error.response?.data?.message || "Invalid credentials"\<close>
  from the raw axios error (\<open>login_error_message\<close> of \<open>Login_Page\<close>). The two agree
  on every failure except two: a message that is an empty string (the code shows the
  fallback) and a message that is a truthy non-string (the code puts the raw value,
  a number or an object, into the toast).
\<close>

datatype auth_reason = NetworkUnreachable | BackendRejection nat

text \<open>The spec's \<open>AuthRequestError{reason, backendMessage?}\<close> (section 4.1) and the
  normalisation the spec asks the gateway to perform on axios' rejections.\<close>

record auth_request_error =
  reason :: auth_reason
  backendMessage :: "string option"

fun normalise_error :: "axios_error \<Rightarrow> auth_request_error" where
  "normalise_error NetworkError = \<lparr>reason = NetworkUnreachable, backendMessage = None\<rparr>"
| "normalise_error (HttpError resp) =
     \<lparr>reason = BackendRejection (status resp),
      backendMessage = json_string (js_opt_member (Some (data resp)) ''message'')\<rparr>"

text \<open>Spec section 7: the notification carries the backend's message when there is one,
  otherwise a generic fallback.\<close>

definition spec_error_text :: "string \<Rightarrow> auth_request_error \<Rightarrow> json" where
  "spec_error_text fallback err =
     JStr (case backendMessage err of Some m \<Rightarrow> m | None \<Rightarrow> fallback)"

text \<open>When the code's \<open>message || fallback\<close> agrees with the spec's text: no message,
  a non-empty string, or a falsy non-string.\<close>

fun message_agrees :: "js_value \<Rightarrow> bool" where
  "message_agrees None = True"
| "message_agrees (Some (JStr m)) = (m \<noteq> [])"
| "message_agrees (Some v) = (\<not> js_truthy v)"

section \<open>The toast text against the spec's normalised error\<close>

text \<open>C22. The Login page's error toast text equals the spec's text for the normalised
  error (backend message, else "Invalid credentials") exactly when the payload's
  \<open>message\<close> is absent, a non-empty string, or a falsy non-string.\<close>

theorem login_error_refines_gateway_iff:
  "login_error_message e = spec_error_text ''Invalid credentials'' (normalise_error e)
   \<longleftrightarrow> message_agrees (js_opt_member (error_response_data e) ''message'')"
proof (cases e)
  case NetworkError
  then show ?thesis by (simp add: login_error_message_def spec_error_text_def)
next
  case (HttpError resp)
  then show ?thesis
    by (cases "js_opt_member (Some (data resp)) ''message''" rule: message_agrees.cases)
       (auto simp: login_error_message_def spec_error_text_def js_or_def)
qed

theorem login_error_refines_gateway_iff_witness:
  "login_error_message (HttpError \<lparr>status = 401, data = JObj [(''message'', JStr ''Bad password'')]\<rparr>)
     = spec_error_text ''Invalid credentials'' (normalise_error (HttpError \<lparr>status = 401, data = JObj [(''message'', JStr ''Bad password'')]\<rparr>))
   \<and> login_error_message (HttpError \<lparr>status = 400, data = JObj [(''message'', JNum 7)]\<rparr>)
     \<noteq> spec_error_text ''Invalid credentials'' (normalise_error (HttpError \<lparr>status = 400, data = JObj [(''message'', JNum 7)]\<rparr>))"
  using login_error_refines_gateway_iff [of "HttpError \<lparr>status = 401, data = JObj [(''message'', JStr ''Bad password'')]\<rparr>"]
    login_error_refines_gateway_iff [of "HttpError \<lparr>status = 400, data = JObj [(''message'', JNum 7)]\<rparr>"]
  by simp

end
