(* ===== verification/Spec2Isabelle.thy ===== *)
theory Spec2Isabelle
  imports Auth_Flows Answer_Drain Request_Contract Email_Grammar Login_Liveness Gateway_Errors
begin

text \<open>
  \<^bold>\<open>User-Authentication client: a verification development.\<close>

  \<^bold>\<open>The program.\<close> The React client under \<open>src/client/src\<close>; three files are present:
  \<^item> \<open>context/AppContext.jsx\<close>: the session store (\<open>isLoggedIn\<close>, \<open>userData\<close>), the
    profile fetch \<open>getUserData\<close> and the bootstrap \<open>getAuthState\<close>, run once by a
    \<open>useEffect\<close> when the provider mounts;
  \<^item> \<open>pages/Login.jsx\<close>: the login/registration form; its \<open>onSubmitHandler\<close> posts to
    \<open>/login\<close> or \<open>/register\<close>, awaits \<open>getUserData\<close>, sets \<open>isLoggedIn\<close> and
    navigates home, reporting failures by toasts;
  \<^item> \<open>App.jsx\<close>: the route table.
  The parts interact through the context (the Login page calls \<open>setIsLoggedIn\<close> and
  \<open>getUserData\<close>), through the router (\<open>navigate\<close> unmounts the Login page), and
  through the JavaScript event loop: each \<open>await\<close> on an axios request is a point where
  any other event (another answer, a user action) may run first.

  \<^bold>\<open>Theories and what they model.\<close>
  \<^item> \<open>Auth_Prelude\<close>: JSON payloads, \<open>undefined\<close>, truthiness, \<open>?.\<close> and \<open>||\<close>;
    the \<open>effect_simps\<close> and \<open>inv_simps\<close> collections.
  \<^item> \<open>Http_Gateway\<close>: requests (method, endpoint, body, \<open>withCredentials\<close>), network
    replies, and axios' settling by its default \<open>validateStatus\<close> (2xx resolves, other
    statuses reject with the response, a transport failure rejects without one).
  \<^item> \<open>Async_Effects\<close>: the interface between the components and the event loop. A code
    fragment between two \<open>await\<close>s is the list of calls it makes (\<open>effect\<close>: the
    React setters, \<open>toast\<close>, \<open>navigate\<close>, sending a request); an \<open>await_point\<close>
    names the suspended function and its Login page instance. \<open>closes_gap\<close> is the
    contract each resumed fragment meets; the components prove it for their fragments.
  \<^item> \<open>App_Context\<close> (AppContext.jsx): \<open>app_ctx\<close> for the two \<open>useState\<close> hooks
    (lines 10--11), \<open>getUserData\<close> (lines 14--26) as \<open>getUserData_call\<close> and
    \<open>getUserData_resume\<close>, \<open>getAuthState\<close> (lines 28--44) as \<open>getAuthState_start\<close>
    and \<open>getAuthState_resume\<close>.
  \<^item> \<open>Login_Page\<close> (Login.jsx): \<open>login_state\<close> (lines 9--13), the input handlers and
    the mode switch, the page's two \<open>Link\<close>s, the browser's validation of the form
    (\<open>required\<close>, \<open>type="email"\<close> after the HTML standard's grammar,
    \<open>disabled={loading}\<close>), and \<open>onSubmitHandler\<close> (lines 18--56) split at its
    \<open>await\<close>s, \<open>catch\<close> and \<open>finally\<close> included.
  \<^item> \<open>Login_View\<close> (Login.jsx lines 82--84, 136, 141--163): the heading, the
    button's label and the mode switch's prompt, as functions of \<open>login_state\<close>.
  \<^item> \<open>App_Router\<close> (App.jsx lines 13--18): \<open>route_of\<close>.
  \<^item> \<open>Event_Loop\<close>: the world (store, location, mounted Login instance, requests in
    flight with their \<open>await\<close> points, toasts, log of sent requests), the effect
    interpreter, \<open>step\<close> on one event (a network answer resuming the \<open>await\<close> that
    sent the request, an input, the mode switch, a submit, a click on one of the Login
    page's \<open>Link\<close>s, another navigation), \<open>run\<close> on a list of events, and
    \<open>reach\<close>, the worlds that some event sequence leads to from a page load
    (\<open>init_world\<close>).
  \<^item> \<open>World_Invariant\<close>: the invariant of reachable worlds by rule induction, and the
    request discipline it gives (C4--C7).
  \<^item> \<open>Auth_Flows\<close>: the login and registration flows end to end (C8--C12, C18), what
    a positive answer does to the store before the profile arrives (C23), and the Login
    page's submit and answers as moves of the spec's Login/Register machine (C24, C26).
  \<^item> \<open>Await_Chains\<close>, \<open>Answer_Drain\<close>: the weight of in-flight requests and the
    termination of every \<open>await\<close> chain (C16); \<open>Login_Liveness\<close>: the form is
    released once the network has answered (C21).
  \<^item> \<open>Request_Contract\<close>: the backend contract of spec section 6 as a table, the
    requests' conformance to it (C19), the credentials round trip (C20), and the
    browser validation carried by every credentials request (C17).
  \<^item> \<open>Gateway_Errors\<close>: the spec's normalised \<open>AuthRequestError\<close> and the
    agreement of the Login page's error text with it (C22).
  \<^item> \<open>Email_Grammar\<close>: a check of the model, not of the program: the executable
    \<open>type="email"\<close> test \<open>valid_email\<close> is the HTML standard's grammar.
  \<^item> this theory: the spec's session contract, the bootstrap outcomes and their
    refinement (C1--C3, C13), and answers that arrive after the state they were meant
    for has changed (C14, C15, C25).

  \<^bold>\<open>What is shown.\<close>
  \<^item> Bootstrap: the outcome for every answer of the backend (C1--C3). It refines the
    spec's bootstrap exactly when the check is negative or the profile arrives (C13).
    Otherwise the code stays logged in without a valid profile.
  \<^item> Request discipline in every reachable world: at most one request in flight per
    Login instance (C4); \<open>loading\<close> is set exactly while one is (C5); a submit is
    rejected locally meanwhile (C6); every request carries credentials (C7).
  \<^item> Flows: login and registration success (C8, C9); a backend rejection shows the
    backend's message and leaves the store untouched (C10); a transport failure shows
    the fallback (C11); a 2xx other than the expected status does nothing visible (C12);
    a login whose profile fetch fails ends logged in with the previous \<open>userData\<close> and
    shows both an error and a success toast (C18).
  \<^item> Stale answers, in every world where the requests involved are in flight: a
    negative bootstrap check logs the store out whatever happened since, keeping the
    profile (C14); a login answer of an unmounted Login instance logs in, and its
    profile answer navigates away from the fresh instance (C15); \<open>/profile\<close> answers
    are applied in arrival order, so the bootstrap's older profile replaces a login's
    (C25). The witnesses place each in a run from a page load.
  \<^item> Ordering: the bootstrap and the login branch set \<open>isLoggedIn\<close> before the
    profile arrives and leave \<open>userData\<close> as it was; registration touches the store
    only after it (C23).
  \<^item> Every \<open>await\<close> chain ends after at most two answers per request in flight
    (C16), and then a mounted Login form is never left locked (C21).
  \<^item> Requests: every request sent matches the backend contract's method, path and
    body shape (C19); the submitted body decodes to the entered credentials (C20); and
    every \<open>/login\<close> or \<open>/register\<close> request carries an e-mail that passed the
    \<open>type="email"\<close> check (one \<open>@\<close>, non-empty parts), a password, and a name on
    \<open>/register\<close> (C17). The error toast agrees with the spec's normalised error except
    for an empty or a non-string \<open>message\<close> (C22).
  \<^item> The Login page against the spec's machine: a submit on an idle form posts the
    mode's request and sets \<open>loading\<close> exactly when the form is valid, and is
    otherwise stopped locally (C26); every answer to one of its requests keeps it
    Submitting, or is a Success (unmount to \<open>/\<close>, success toast) or a Failed move
    (error toast, store untouched), except the silent 2xx path (C24).

  \<^bold>\<open>Bounds and fuel.\<close> No loop of the program is unbounded and no fuel is used. The
  only recursion beyond structural is \<open>drain_events\<close>, a \<^theory_text>\<open>function\<close> whose
  termination measure is the weight of the in-flight requests; \<open>split_on\<close> and
  \<open>join_on\<close> recurse on the string. Request ids, instance numbers and HTTP statuses
  are \<open>nat\<close>: the code does no arithmetic on them.

  \<^bold>\<open>Not modelled.\<close> Markup and styling (the remaining lines of the three files),
  rendering beyond the Login page's texts, \<open>console.error\<close> logging, how toasts are
  displayed, the session cookie's contents (the client never reads it), and the
  \<open>Provider\<close> element itself (its value is the world's store, which every handler
  reads and writes directly). The pages \<open>Home\<close>, \<open>EmailVerify\<close> and
  \<open>ResetPassword\<close>, which \<open>App.jsx\<close> imports and routes to, are not in the
  repository: the router mounts and unmounts them (\<open>route_of\<close>), but a model of
  their behaviour could only restate the spec, so none is given. Also React
  StrictMode's double effects (\<open>main.jsx\<close> is not among the sources), full page
  reloads (a reload is a fresh \<open>init_world\<close>), the browser's sanitisation of
  \<open>type="email"\<close> values (an \<open>Input\<close> event carries the value the browser reports),
  and the \<open>BACKEND_URL\<close> constant of \<open>util/constants\<close>, which is not among the
  sources (requests record their endpoint). Route matching is exact, where React Router
  also accepts a trailing slash and other letter case.
\<close>

section \<open>The spec's session contract\<close>

text \<open>
  The spec (sections 3 and 4.3) describes the session as \<open>isAuthenticated\<close> and an
  optional \<open>currentUser\<close>, and the bootstrap as: a valid check followed by a successful
  profile fetch (a 200 carrying a user profile object) yields the authenticated session
  with that profile; every other outcome yields the unauthenticated session.
  \<open>abs_session\<close> reads the code's store as such a session (\<open>null\<close> user data is no
  user).
\<close>

record session =
  isAuthenticated :: bool
  currentUser :: "json option"

definition abs_session :: "app_ctx \<Rightarrow> session" where
  "abs_session c =
     \<lparr>isAuthenticated = isLoggedIn c,
      currentUser = (if userData c = JNull then None else Some (userData c))\<rparr>"

definition spec_check_valid :: "reply \<Rightarrow> bool" where
  "spec_check_valid r \<longleftrightarrow> r = Response 200 (JBool True)"

fun spec_profile :: "reply \<Rightarrow> json option" where
  "spec_profile (Response s (JObj kvs)) = (if s = 200 then Some (JObj kvs) else None)"
| "spec_profile _ = None"

definition spec_bootstrap :: "reply \<Rightarrow> reply \<Rightarrow> session" where
  "spec_bootstrap r1 r2 =
     (if spec_check_valid r1
      then (case spec_profile r2 of
              Some u \<Rightarrow> \<lparr>isAuthenticated = True, currentUser = Some u\<rparr>
            | None \<Rightarrow> \<lparr>isAuthenticated = False, currentUser = None\<rparr>)
      else \<lparr>isAuthenticated = False, currentUser = None\<rparr>)"

section \<open>Bootstrap\<close>

text \<open>C1. When the backend's answer to the bootstrap's \<open>/is-authenticated\<close> check is
  anything but a 200 with payload \<open>true\<close> (another status, another payload, a rejection
  or a transport failure), the bootstrap ends with the store logged out and empty and
  no request left in flight.\<close>

theorem bootstrap_negative:
  assumes "r \<noteq> Response 200 (JBool True)"
  shows "ctx (step (Resolve 0 r) (init_world p)) = \<lparr>isLoggedIn = False, userData = JNull\<rparr>
       \<and> tasks (step (Resolve 0 r) (init_world p)) = []"
  using assms
  by (cases r) (auto simp: effect_simps init_world_def world0_def find_task_def ctx_init_def
       axios_settle_Inr split: sum.splits if_splits)

theorem bootstrap_negative_witness:
  "NetworkFailure \<noteq> Response 200 (JBool True)
   \<and> ctx (step (Resolve 0 NetworkFailure) (init_world ''/''))
       = \<lparr>isLoggedIn = False, userData = JNull\<rparr>
   \<and> tasks (step (Resolve 0 NetworkFailure) (init_world ''/'')) = []"
  using bootstrap_negative [of NetworkFailure "''/''"] by simp

text \<open>C2. When the check answers 200 with \<open>true\<close> and the profile fetch answers 200
  with payload \<open>d\<close>, the bootstrap ends logged in with exactly \<open>d\<close> as the user data
  (replaced wholesale) and nothing in flight.\<close>

theorem bootstrap_positive:
  "ctx (run [Resolve 0 (Response 200 (JBool True)), Resolve 1 (Response 200 d)] (init_world p))
     = \<lparr>isLoggedIn = True, userData = d\<rparr>
   \<and> tasks (run [Resolve 0 (Response 200 (JBool True)), Resolve 1 (Response 200 d)]
       (init_world p)) = []"
  by (simp add: effect_simps init_world_def world0_def find_task_def ctx_init_def)

text \<open>C3. When the check answers 200 with \<open>true\<close> but the profile fetch does not answer
  200, the code ends with \<open>isLoggedIn\<close> true and no user data: \<open>getUserData\<close> swallows
  the failure and nothing resets the flag. The spec (section 4.3, step 5) asks for the
  logged-out state here.\<close>

theorem bootstrap_profile_fails:
  assumes "\<forall>d. r \<noteq> Response 200 d"
  shows "ctx (run [Resolve 0 (Response 200 (JBool True)), Resolve 1 r] (init_world p))
     = \<lparr>isLoggedIn = True, userData = JNull\<rparr>"
  using assms
  by (cases r) (auto simp: effect_simps init_world_def world0_def find_task_def ctx_init_def
       split: sum.splits if_splits)

theorem bootstrap_profile_fails_witness:
  "(\<forall>d. NetworkFailure \<noteq> Response 200 d)
   \<and> ctx (run [Resolve 0 (Response 200 (JBool True)), Resolve 1 NetworkFailure]
       (init_world ''/'')) = \<lparr>isLoggedIn = True, userData = JNull\<rparr>"
  using bootstrap_profile_fails [of NetworkFailure "''/''"] by simp

text \<open>C13. Refinement of the spec's bootstrap: the session the code ends with after the
  two answers equals the one the spec prescribes exactly when the check is negative or
  the profile fetch delivers a profile object. In every other case (a valid session
  whose profile fetch fails or returns something else) the code ends authenticated while
  the spec ends unauthenticated.\<close>

theorem bootstrap_refines_spec_iff:
  "abs_session (ctx (run [Resolve 0 r1, Resolve 1 r2] (init_world p))) = spec_bootstrap r1 r2
   \<longleftrightarrow> \<not> spec_check_valid r1 \<or> spec_profile r2 \<noteq> None"
proof (cases "spec_check_valid r1")
  case False
  then show ?thesis
    by (cases r1) (auto simp: run_eval_defs abs_session_def spec_bootstrap_def
        spec_check_valid_def ctx_init_def split: sum.splits if_splits)
next
  case True
  then have r1: "r1 = Response 200 (JBool True)" by (simp add: spec_check_valid_def)
  show ?thesis
    using True
    by (cases r2 rule: spec_profile.cases)
       (auto simp: r1 run_eval_defs abs_session_def spec_bootstrap_def ctx_init_def
        split: sum.splits if_splits)
qed

theorem bootstrap_refines_spec_iff_witness:
  "abs_session (ctx (run [Resolve 0 (Response 200 (JBool True)), Resolve 1 (Response 200 (JObj []))]
       (init_world ''/''))) = spec_bootstrap (Response 200 (JBool True)) (Response 200 (JObj []))
   \<and> \<not> (abs_session (ctx (run [Resolve 0 (Response 200 (JBool True)), Resolve 1 NetworkFailure]
       (init_world ''/''))) = spec_bootstrap (Response 200 (JBool True)) NetworkFailure)"
  using bootstrap_refines_spec_iff [of "Response 200 (JBool True)" "Response 200 (JObj [])" "''/''"]
    bootstrap_refines_spec_iff [of "Response 200 (JBool True)" NetworkFailure "''/''"]
  by (simp add: spec_check_valid_def)

section \<open>Interleavings\<close>

text \<open>C14. The bootstrap's check is applied whenever its answer arrives. In every world
  in which the mount-time \<open>/is-authenticated\<close> request is still in flight, a negative
  answer to it (anything but a 200 with \<open>true\<close>) sets \<open>isLoggedIn\<close> to false and
  changes nothing else: after a login that completed meanwhile, the session is
  unauthenticated while the store keeps the user's profile, which the spec's session
  invariant forbids.\<close>

theorem stale_bootstrap_overrides_login:
  assumes "find_task n (tasks w) = Some t" "task_await t = AwaitAuthCheck"
    and "r \<noteq> Response 200 (JBool True)"
  shows "step (Resolve n r) w =
     w\<lparr>tasks := remove1 t (tasks w), ctx := (ctx w)\<lparr>isLoggedIn := False\<rparr>\<rparr>"
  using assms
  by (cases r) (auto simp: getAuthState_resume_def axios_settle_Inr split: sum.splits if_splits)

theorem stale_bootstrap_overrides_login_witness:
  "let w = run [Input FEmail ''a@b.co'', Input FPassword ''pw'', Submit,
                Resolve 1 (Response 200 JNull), Resolve 2 (Response 200 (JObj [(''name'', JStr ''Ann'')]))]
             (init_world ''/login'');
       t = \<lparr>task_id = 0, task_req = is_authenticated_request, task_await = AwaitAuthCheck\<rparr>
   in find_task 0 (tasks w) = Some t \<and> task_await t = AwaitAuthCheck \<and>
      NetworkFailure \<noteq> Response 200 (JBool True) \<and>
      ctx w = \<lparr>isLoggedIn = True, userData = JObj [(''name'', JStr ''Ann'')]\<rparr> \<and>
      ctx (step (Resolve 0 NetworkFailure) w) = \<lparr>isLoggedIn = False, userData = JObj [(''name'', JStr ''Ann'')]\<rparr>"
proof -
  define w where "w = run [Input FEmail ''a@b.co'', Input FPassword ''pw'', Submit,
                Resolve 1 (Response 200 JNull), Resolve 2 (Response 200 (JObj [(''name'', JStr ''Ann'')]))]
             (init_world ''/login'')"
  define t where "t = \<lparr>task_id = 0, task_req = is_authenticated_request, task_await = AwaitAuthCheck\<rparr>"
  have f: "find_task 0 (tasks w) = Some t" unfolding w_def t_def by (simp add: run_eval_defs)
  have k: "task_await t = AwaitAuthCheck" unfolding t_def by simp
  have r: "NetworkFailure \<noteq> Response 200 (JBool True)" by simp
  have c: "ctx w = \<lparr>isLoggedIn = True, userData = JObj [(''name'', JStr ''Ann'')]\<rparr>"
    unfolding w_def by (simp add: run_eval_defs ctx_init_def route_of_def)
  have s: "step (Resolve 0 NetworkFailure) w =
      w\<lparr>tasks := remove1 t (tasks w), ctx := (ctx w)\<lparr>isLoggedIn := False\<rparr>\<rparr>"
    by (rule stale_bootstrap_overrides_login [OF f k r])
  show ?thesis
    unfolding w_def [symmetric] t_def [symmetric] Let_def using f k r c s by simp
qed

text \<open>C15. A submit whose page instance is gone still acts. In every reachable world in
  which a login request of Login instance \<open>i\<close> is in flight while another instance
  \<open>j\<close> is mounted (the user left \<open>/login\<close> and came back), a 200 answer runs the old
  handler: it logs the store in and fetches the profile, the fresh instance staying as
  it was; when the profile answers, the old handler stores it, shows its success toast
  and navigates to \<open>/\<close>, unmounting the fresh page. The spec (section 5) says such a
  stale result is discarded.\<close>

theorem stale_submit_after_remount:
  assumes "reach w" "find_task n (tasks w) = Some t" "task_await t = AwaitLogin i"
    and "login_page w = Some (j, st)" "j \<noteq> i"
  shows "let w1 = step (Resolve n (Response 200 x)) w;
             w2 = step (Resolve (next_req w) (Response 200 d)) w1
         in ctx w1 = (ctx w)\<lparr>isLoggedIn := True\<rparr> \<and> login_page w1 = Some (j, st) \<and>
            ctx w2 = \<lparr>isLoggedIn = True, userData = d\<rparr> \<and> location w2 = ''/'' \<and>
            login_page w2 = None \<and>
            toasts w2 = toasts w @ [(ToastSuccess, JStr ''Login successful'')]"
proof -
  have inv: "world_inv w" using assms(1) by (rule reach_world_inv)
  let ?v = "w\<lparr>tasks := remove1 t (tasks w), ctx := (ctx w)\<lparr>isLoggedIn := True\<rparr>\<rparr>"
  have w1: "step (Resolve n (Response 200 x)) w =
      send profile_request (AwaitProfile (FromLogin i)) ?v"
    using assms(2,3) by (simp add: login_resume_def getUserData_call_def validate_status_def)
  have fresh: "\<forall>u \<in> set (tasks ?v). task_id u < next_req ?v"
    using inv_ids_fresh [OF inv] set_remove1_subset [of t "tasks w"] by auto
  have w2: "step (Resolve (next_req w) (Response 200 d)) (send profile_request (AwaitProfile (FromLogin i)) ?v)
      = apply_effects (login_after_profile i (Response 200 d))
          (?v\<lparr>next_req := Suc (next_req ?v), sent := sent ?v @ [profile_request]\<rparr>)"
    using resolve_sent [OF fresh, of "next_req w"] by simp
  show ?thesis
    using inv_page_location [OF inv assms(4)] assms(4,5)
    unfolding Let_def w1 w2
    by (simp add: login_after_profile_def getUserData_resume_def navigate_def set_loading_def
        send_def validate_status_def route_of_def)
qed

theorem stale_submit_after_remount_witness:
  "let w = run [Input FEmail ''a@b.co'', Input FPassword ''pw'', Submit,
                FollowLink ''/reset-password'', Visit ''/login''] (init_world ''/login'');
       t = \<lparr>task_id = 1, task_req = login_request ''a@b.co'' ''pw'', task_await = AwaitLogin 0\<rparr>
   in reach w \<and> find_task 1 (tasks w) = Some t \<and> task_await t = AwaitLogin 0 \<and>
      login_page w = Some (1, login_init) \<and> (1::nat) \<noteq> 0 \<and>
      (let w1 = step (Resolve 1 (Response 200 JNull)) w;
           w2 = step (Resolve (next_req w) (Response 200 JNull)) w1
       in ctx w1 = (ctx w)\<lparr>isLoggedIn := True\<rparr> \<and> login_page w1 = Some (1, login_init) \<and>
          ctx w2 = \<lparr>isLoggedIn = True, userData = JNull\<rparr> \<and> location w2 = ''/'' \<and>
          login_page w2 = None \<and>
          toasts w2 = toasts w @ [(ToastSuccess, JStr ''Login successful'')])"
proof -
  define w where "w = run [Input FEmail ''a@b.co'', Input FPassword ''pw'', Submit,
                FollowLink ''/reset-password'', Visit ''/login''] (init_world ''/login'')"
  define t where "t = \<lparr>task_id = 1, task_req = login_request ''a@b.co'' ''pw'', task_await = AwaitLogin 0\<rparr>"
  have r: "reach w" unfolding w_def by (rule reach_run [OF reach.init])
  have f: "find_task 1 (tasks w) = Some t" unfolding w_def t_def by (simp add: run_eval_defs route_of_def)
  have k: "task_await t = AwaitLogin 0" unfolding t_def by simp
  have p: "login_page w = Some (1, login_init)" unfolding w_def by (simp add: run_eval_defs route_of_def)
  have ne: "(1::nat) \<noteq> 0" by simp
  show ?thesis
    using r f k p ne stale_submit_after_remount [OF r f k p ne, of JNull JNull]
    unfolding w_def [symmetric] t_def [symmetric] Let_def
    by (simp only: simp_thms)
qed

text \<open>C25. Answers of \<open>getUserData\<close> are applied in the order they arrive, not the order
  they were sent. In every world in which the bootstrap's \<open>/profile\<close> request (sent
  with the previous session's cookie) and a login's \<open>/profile\<close> request are both in
  flight, if the login's answer arrives first the page navigates home with its
  profile, and the bootstrap's older answer then replaces it: the store ends with the
  previous user's profile, against spec section 4.2 (\<open>setAuthenticated\<close> installs the
  freshly fetched profile).\<close>

theorem stale_bootstrap_profile_overrides_login:
  assumes "find_task n1 (tasks w) = Some t1" "task_await t1 = AwaitProfile FromAuthState"
    and "find_task n2 (tasks w) = Some t2" "task_await t2 = AwaitProfile (FromLogin i)"
  shows "let w1 = step (Resolve n2 (Response 200 dB)) w;
             w2 = step (Resolve n1 (Response 200 dA)) w1
         in ctx w1 = (ctx w)\<lparr>userData := dB\<rparr> \<and> location w1 = ''/'' \<and>
            ctx w2 = (ctx w)\<lparr>userData := dA\<rparr> \<and> location w2 = ''/''"
proof -
  have t1: "task_id t1 = n1" and t2: "task_id t2 = n2"
    using find_task_Some [OF assms(1)] find_task_Some [OF assms(3)] by simp_all
  have ne: "task_id t2 \<noteq> n1"
  proof
    assume "task_id t2 = n1"
    with t2 assms(1,3) have "t1 = t2" by simp
    with assms(2,4) show False by simp
  qed
  have w1: "step (Resolve n2 (Response 200 dB)) w =
      apply_effects (login_after_profile i (Response 200 dB)) (w\<lparr>tasks := remove1 t2 (tasks w)\<rparr>)"
    using assms(3,4) by simp
  have tasks1: "tasks (apply_effects (login_after_profile i (Response 200 dB))
      (w\<lparr>tasks := remove1 t2 (tasks w)\<rparr>)) = remove1 t2 (tasks w)"
    by (simp add: login_after_profile_def getUserData_resume_def navigate_def set_loading_def
        validate_status_def split: option.split)
  have f1: "find_task n1 (tasks (apply_effects (login_after_profile i (Response 200 dB))
      (w\<lparr>tasks := remove1 t2 (tasks w)\<rparr>))) = Some t1"
    unfolding tasks1 using find_task_remove1_other [OF ne] assms(1) by simp
  show ?thesis
    using f1 assms(2) unfolding Let_def w1
    by (simp add: login_after_profile_def getUserData_resume_def navigate_def set_loading_def
        validate_status_def split: option.split)
qed

theorem stale_bootstrap_profile_overrides_login_witness:
  "let w = run [Resolve 0 (Response 200 (JBool True)), Input FEmail ''b@b.co'', Input FPassword ''pw'',
                Submit, Resolve 2 (Response 200 JNull)] (init_world ''/login'');
       t1 = \<lparr>task_id = 1, task_req = profile_request, task_await = AwaitProfile FromAuthState\<rparr>;
       t2 = \<lparr>task_id = 3, task_req = profile_request, task_await = AwaitProfile (FromLogin 0)\<rparr>
   in find_task 1 (tasks w) = Some t1 \<and> task_await t1 = AwaitProfile FromAuthState \<and>
      find_task 3 (tasks w) = Some t2 \<and> task_await t2 = AwaitProfile (FromLogin 0) \<and>
      (let w1 = step (Resolve 3 (Response 200 (JStr ''B''))) w;
           w2 = step (Resolve 1 (Response 200 (JStr ''A''))) w1
       in ctx w1 = (ctx w)\<lparr>userData := JStr ''B''\<rparr> \<and> location w1 = ''/'' \<and>
          ctx w2 = (ctx w)\<lparr>userData := JStr ''A''\<rparr> \<and> location w2 = ''/'')"
proof -
  define w where "w = run [Resolve 0 (Response 200 (JBool True)), Input FEmail ''b@b.co'', Input FPassword ''pw'',
                Submit, Resolve 2 (Response 200 JNull)] (init_world ''/login'')"
  define t1 where "t1 = \<lparr>task_id = 1, task_req = profile_request, task_await = AwaitProfile FromAuthState\<rparr>"
  define t2 where "t2 = \<lparr>task_id = 3, task_req = profile_request, task_await = AwaitProfile (FromLogin 0)\<rparr>"
  have f1: "find_task 1 (tasks w) = Some t1" unfolding w_def t1_def by (simp add: run_eval_defs)
  have k1: "task_await t1 = AwaitProfile FromAuthState" unfolding t1_def by simp
  have f2: "find_task 3 (tasks w) = Some t2" unfolding w_def t2_def by (simp add: run_eval_defs)
  have k2: "task_await t2 = AwaitProfile (FromLogin 0)" unfolding t2_def by simp
  show ?thesis
    using f1 k1 f2 k2
      stale_bootstrap_profile_overrides_login [OF f1 k1 f2 k2, of "JStr ''B''" "JStr ''A''"]
    unfolding w_def [symmetric] t1_def [symmetric] t2_def [symmetric] Let_def
    by (simp only: simp_thms)
qed

end
